theory Spec2Isabelle
  imports Main "HOL-Library.Char_ord" "HOL-Library.List_Lexorder"
    "HOL-Library.Product_Lexorder" "HOL-Library.Sublist" "HOL-Library.Multiset"
begin

section \<open>GeoLife trajectory extraction (data\_extract.py)\<close>

text \<open>
  A shallow embedding of \<^verbatim>\<open>data_extract.py\<close>: \<^verbatim>\<open>try_parse_datetime\<close>,
  \<^verbatim>\<open>parse_plt_file\<close> and \<^verbatim>\<open>process_geolife_dataset\<close>.

  Conventions of the model.
  \<^item> A Python \<^verbatim>\<open>str\<close> is a \<open>string\<close>; a \<open>char\<close> stands for a code point below 256, so
    the character classes below (white space, decimal digits) are Python's classes
    restricted to that range.
  \<^item> An exception is a value: functions that can raise return \<open>exn + 'a\<close>, with \<open>Inl\<close> the
    exception.
  \<^item> The built-in \<^verbatim>\<open>float\<close> is a parameter \<open>flt :: string \<Rightarrow> 'f option\<close> of every function
    that calls it, \<open>None\<close> standing for the \<^verbatim>\<open>ValueError\<close> that \<^verbatim>\<open>float\<close> raises on a
    string it cannot convert. The theorems hold for every such function;
    \<open>float_literal\<close> is one concrete reading used to run the model on sample lines.
  \<^item> \<^verbatim>\<open>datetime.strptime\<close> is modelled for the six directives the program uses, from
    CPython's \<^verbatim>\<open>_strptime.py\<close>.
\<close>

subsection \<open>Strings\<close>

text \<open>\<^verbatim>\<open>str.isspace\<close> on one character (the white space that \<^verbatim>\<open>strip\<close> removes and that
  the regular expression \<^verbatim>\<open>\s\<close> matches).\<close>

definition isspace :: "char \<Rightarrow> bool" where
  "isspace c = (c \<in> set [CHR 0x09, CHR 0x0A, CHR 0x0B, CHR 0x0C, CHR 0x0D,
                          CHR 0x1C, CHR 0x1D, CHR 0x1E, CHR 0x1F, CHR 0x20,
                          CHR 0x85, CHR 0xA0])"

text \<open>\<^verbatim>\<open>s.strip()\<close>.\<close>

definition strip :: "string \<Rightarrow> string" where
  "strip s = rev (dropWhile isspace (rev (dropWhile isspace s)))"

text \<open>\<^verbatim>\<open>s.split(sep)\<close> for a one-character separator; \<open>acc\<close> holds the current piece
  reversed. The result always has at least one piece.\<close>

fun split_acc :: "char \<Rightarrow> string \<Rightarrow> string \<Rightarrow> string list" where
  "split_acc sep acc [] = [rev acc]"
| "split_acc sep acc (c # cs) =
     (if c = sep then rev acc # split_acc sep [] cs else split_acc sep (c # acc) cs)"

definition split :: "char \<Rightarrow> string \<Rightarrow> string list" where
  "split sep s = split_acc sep [] s"

subsection \<open>Exceptions and indexing\<close>

datatype value_error =
    CouldNotConvert string      \<comment> \<open>\<^verbatim>\<open>float(s)\<close> failed on \<open>s\<close>\<close>
  | UnknownDatetimeFormat string  \<comment> \<open>raised by \<^verbatim>\<open>try_parse_datetime\<close> for the text \<open>ts\<close>\<close>

datatype exn = ValueError value_error | IndexError | OSError

text \<open>\<^verbatim>\<open>xs[i]\<close>: a negative index counts from the end, an index out of range raises.\<close>

definition getitem :: "'a list \<Rightarrow> int \<Rightarrow> exn + 'a" where
  "getitem xs i =
     (let n = int (length xs); j = (if i < 0 then i + n else i)
      in if j < 0 \<or> n \<le> j then Inl IndexError else Inr (xs ! nat j))"

text \<open>\<^verbatim>\<open>float(s)\<close> through the parameter \<open>flt\<close>.\<close>

definition float_of :: "(string \<Rightarrow> 'f option) \<Rightarrow> string \<Rightarrow> exn + 'f" where
  "float_of flt s =
     (case flt s of None \<Rightarrow> Inl (ValueError (CouldNotConvert s)) | Some v \<Rightarrow> Inr v)"

subsection \<open>datetime\<close>

text \<open>A \<^verbatim>\<open>datetime\<close> object without time zone; the microsecond field is always 0 in this
  program and is left out.\<close>

record datetime =
  year :: nat
  month :: nat
  day :: nat
  hour :: nat
  minute :: nat
  second :: nat

definition is_leap :: "nat \<Rightarrow> bool" where
  "is_leap y = (y mod 4 = 0 \<and> (y mod 100 \<noteq> 0 \<or> y mod 400 = 0))"

definition days_in_month :: "nat \<Rightarrow> nat \<Rightarrow> nat" where
  "days_in_month y m =
     (if m = 2 then (if is_leap y then 29 else 28)
      else if m \<in> {4, 6, 9, 11} then 30 else 31)"

text \<open>The constructor \<^verbatim>\<open>datetime(y, m, d, H, M, S)\<close>: \<open>None\<close> is its \<^verbatim>\<open>ValueError\<close> for a
  field out of range (\<^verbatim>\<open>MINYEAR = 1\<close>, \<^verbatim>\<open>MAXYEAR = 9999\<close>).\<close>

definition valid_datetime :: "datetime \<Rightarrow> bool" where
  "valid_datetime t =
     (1 \<le> year t \<and> year t \<le> 9999 \<and> 1 \<le> month t \<and> month t \<le> 12 \<and>
      1 \<le> day t \<and> day t \<le> days_in_month (year t) (month t) \<and>
      hour t \<le> 23 \<and> minute t \<le> 59 \<and> second t \<le> 59)"

definition datetime_new :: "nat \<Rightarrow> nat \<Rightarrow> nat \<Rightarrow> nat \<Rightarrow> nat \<Rightarrow> nat \<Rightarrow> datetime option" where
  "datetime_new y m d H M S =
     (let t = \<lparr>year = y, month = m, day = d, hour = H, minute = M, second = S\<rparr>
      in if valid_datetime t then Some t else None)"

subsection \<open>datetime.strptime\<close>

text \<open>\<^verbatim>\<open>_strptime.py\<close> turns the format into a regular expression: every run of white space
  becomes \<^verbatim>\<open>\s+\<close>, every directive \<^verbatim>\<open>%x\<close> its own group, every other character stands
  for itself.\<close>

datatype item = Directive char | Literal char | Whitespace

text \<open>\<open>ws\<close> tells that the previous character was white space too (one \<^verbatim>\<open>\s+\<close> for the
  whole run). \<open>None\<close>: a stray \<^verbatim>\<open>%\<close> at the end, which \<^verbatim>\<open>strptime\<close> reports as a
  \<^verbatim>\<open>ValueError\<close>.\<close>

fun pattern_from :: "bool \<Rightarrow> string \<Rightarrow> item list option" where
  "pattern_from ws [] = Some []"
| "pattern_from ws (c # cs) =
     (if isspace c then
        (if ws then pattern_from True cs
         else map_option ((#) Whitespace) (pattern_from True cs))
      else if c = CHR ''%'' then
        (case cs of [] \<Rightarrow> None
         | d # ds \<Rightarrow> map_option ((#) (Directive d)) (pattern_from False ds))
      else map_option ((#) (Literal c)) (pattern_from False cs))"

definition pattern :: "string \<Rightarrow> item list option" where
  "pattern fmt = pattern_from False fmt"

text \<open>A character class of the groups: one character, or a range (\<^verbatim>\<open>\d\<close> is the range
  from 0 to 9).\<close>

datatype cclass = Chr char | Rng char char

fun in_class :: "cclass \<Rightarrow> char \<Rightarrow> bool" where
  "in_class (Chr a) c = (c = a)"
| "in_class (Rng lo hi) c = (lo \<le> c \<and> c \<le> hi)"

abbreviation dgt :: cclass where
  "dgt \<equiv> Rng CHR ''0'' CHR ''9''"

text \<open>The group of a directive, as the list of its alternatives in the order of the
  regular expression (\<^verbatim>\<open>TimeRE.__init__\<close>). \<open>None\<close>: a directive this model does not
  cover; the program uses none.\<close>

definition directive_regex :: "char \<Rightarrow> cclass list list option" where
  "directive_regex d =
     (if d = CHR ''d'' then
        Some [[Chr CHR ''3'', Rng CHR ''0'' CHR ''1''], [Rng CHR ''1'' CHR ''2'', dgt],
              [Chr CHR ''0'', Rng CHR ''1'' CHR ''9''], [Rng CHR ''1'' CHR ''9''],
              [Chr CHR '' '', Rng CHR ''1'' CHR ''9'']]
      else if d = CHR ''H'' then
        Some [[Chr CHR ''2'', Rng CHR ''0'' CHR ''3''], [Rng CHR ''0'' CHR ''1'', dgt], [dgt]]
      else if d = CHR ''m'' then
        Some [[Chr CHR ''1'', Rng CHR ''0'' CHR ''2''], [Chr CHR ''0'', Rng CHR ''1'' CHR ''9''],
              [Rng CHR ''1'' CHR ''9'']]
      else if d = CHR ''M'' then
        Some [[Rng CHR ''0'' CHR ''5'', dgt], [dgt]]
      else if d = CHR ''S'' then
        Some [[Chr CHR ''6'', Rng CHR ''0'' CHR ''1''], [Rng CHR ''0'' CHR ''5'', dgt], [dgt]]
      else if d = CHR ''Y'' then
        Some [[dgt, dgt, dgt, dgt]]
      else None)"

text \<open>One alternative against the start of \<open>s\<close>: the text it consumes and the rest.\<close>

fun match_seq :: "cclass list \<Rightarrow> string \<Rightarrow> (string \<times> string) option" where
  "match_seq [] s = Some ([], s)"
| "match_seq (k # ks) [] = None"
| "match_seq (k # ks) (c # cs) =
     (if in_class k c
      then map_option (\<lambda>(m, r). (c # m, r)) (match_seq ks cs)
      else None)"

definition alternatives :: "cclass list list \<Rightarrow> string \<Rightarrow> (string \<times> string) list" where
  "alternatives alts s = List.map_filter (\<lambda>a. match_seq a s) alts"

text \<open>All the ways the expression matches a prefix of \<open>s\<close>, in the order a backtracking
  matcher finds them: earlier alternatives first, longer white space first. Each is the
  list of captured groups and the text left over. \<^verbatim>\<open>re.match\<close> returns the first.\<close>

fun match_items :: "item list \<Rightarrow> string \<Rightarrow> ((char \<times> string) list \<times> string) list" where
  "match_items [] s = [([], s)]"
| "match_items (Literal a # its) s =
     (case s of [] \<Rightarrow> [] | c # cs \<Rightarrow> if c = a then match_items its cs else [])"
| "match_items (Whitespace # its) s =
     concat (map (\<lambda>k. match_items its (drop k s))
                 (rev [1 ..< Suc (length (takeWhile isspace s))]))"
| "match_items (Directive d # its) s =
     (case directive_regex d of None \<Rightarrow> []
      | Some alts \<Rightarrow>
          concat (map (\<lambda>(m, r). map (\<lambda>(g, r'). ((d, m) # g, r')) (match_items its r))
                      (alternatives alts s)))"

text \<open>\<^verbatim>\<open>format_regex.match(data_string)\<close>: the first match, if there is one.\<close>

definition re_match :: "item list \<Rightarrow> string \<Rightarrow> ((char \<times> string) list \<times> string) option" where
  "re_match its s = (case match_items its s of [] \<Rightarrow> None | x # _ \<Rightarrow> Some x)"

text \<open>The names of the groups of an expression, in its order.\<close>

fun directives :: "item list \<Rightarrow> char list" where
  "directives [] = []"
| "directives (Directive d # its) = d # directives its"
| "directives (Literal a # its) = directives its"
| "directives (Whitespace # its) = directives its"

text \<open>\<^verbatim>\<open>int(s)\<close> on a captured group: decimal digits, after one blank for \<^verbatim>\<open>%d\<close>.\<close>

definition digit_value :: "char \<Rightarrow> nat" where
  "digit_value c = of_char c - 48"

definition int_of_group :: "string \<Rightarrow> nat" where
  "int_of_group s = foldl (\<lambda>a c. 10 * a + digit_value c) 0 (strip s)"

text \<open>The value of a group, or the default \<^verbatim>\<open>_strptime\<close> starts from.\<close>

definition group_or :: "(char \<times> string) list \<Rightarrow> char \<Rightarrow> nat \<Rightarrow> nat" where
  "group_or found d dflt = (case map_of found d of None \<Rightarrow> dflt | Some s \<Rightarrow> int_of_group s)"

text \<open>\<^verbatim>\<open>datetime.strptime(data_string, format)\<close>; \<open>None\<close> is its \<^verbatim>\<open>ValueError\<close>: the
  text does not match, text remains after the match, or the fields are no date.\<close>

definition strptime :: "string \<Rightarrow> string \<Rightarrow> datetime option" where
  "strptime data_string fmt =
     (case pattern fmt of None \<Rightarrow> None
      | Some its \<Rightarrow>
          (case re_match its data_string of None \<Rightarrow> None
           | Some (found, rest) \<Rightarrow>
               if rest \<noteq> [] then None
               else datetime_new (group_or found CHR ''Y'' 1900) (group_or found CHR ''m'' 1)
                      (group_or found CHR ''d'' 1) (group_or found CHR ''H'' 0)
                      (group_or found CHR ''M'' 0) (group_or found CHR ''S'' 0)))"

subsection \<open>try\_parse\_datetime\<close>

definition candidates :: "string list" where
  "candidates = [''%Y-%m-%d %H:%M:%S'', ''%Y/%m/%d %H:%M:%S'', ''%d-%m-%Y %H:%M:%S'',
                 ''%Y-%m-%d %H:%M'']"

text \<open>The \<^verbatim>\<open>for fmt in candidates\<close> loop: the first format \<^verbatim>\<open>strptime\<close> accepts returns,
  any exception moves on to the next.\<close>

fun try_formats :: "string \<Rightarrow> string list \<Rightarrow> datetime option" where
  "try_formats ts [] = None"
| "try_formats ts (fmt # fmts) =
     (case strptime ts fmt of Some t \<Rightarrow> Some t | None \<Rightarrow> try_formats ts fmts)"

definition try_parse_datetime :: "string \<Rightarrow> string \<Rightarrow> exn + datetime" where
  "try_parse_datetime date_str time_str =
     (let ts = date_str @ '' '' @ time_str
      in case try_formats ts candidates of
           Some t \<Rightarrow> Inr t
         | None \<Rightarrow> Inl (ValueError (UnknownDatetimeFormat ts)))"

subsection \<open>parse\_plt\_file: one line\<close>

record 'f point =
  user_id :: string
  latitude :: 'f
  longitude :: 'f
  altitude :: 'f
  timestamp :: datetime

text \<open>\<^verbatim>\<open>parts = [p.strip() for p in raw.split(',') if p.strip() != ""]\<close>\<close>

definition split_fields :: "string \<Rightarrow> string list" where
  "split_fields raw = map strip (filter (\<lambda>p. strip p \<noteq> []) (split CHR '','' raw))"

text \<open>\<^verbatim>\<open>float(parts[i])\<close>\<close>

definition float_at :: "(string \<Rightarrow> 'f option) \<Rightarrow> string list \<Rightarrow> int \<Rightarrow> exn + 'f" where
  "float_at flt parts i =
     (case getitem parts i of Inl e \<Rightarrow> Inl e | Inr s \<Rightarrow> float_of flt s)"

text \<open>Lines 59 to 65: the altitude. The inner \<^verbatim>\<open>except Exception\<close> catches whatever the
  first attempt raises.\<close>

definition altitude_of :: "(string \<Rightarrow> 'f option) \<Rightarrow> string list \<Rightarrow> exn + 'f" where
  "altitude_of flt parts =
     (if length parts > 3 then
        (case float_at flt parts 3 of
           Inr a \<Rightarrow> Inr a
         | Inl _ \<Rightarrow> float_at flt parts (- 3))
      else float_at flt parts (- 3))"

text \<open>Lines 55 to 79, the body of the inner \<^verbatim>\<open>try\<close>: the record appended to \<^verbatim>\<open>data\<close>, or
  the exception raised on the way.\<close>

definition extract_point :: "(string \<Rightarrow> 'f option) \<Rightarrow> string \<Rightarrow> string list \<Rightarrow> exn + 'f point" where
  "extract_point flt uid parts =
     (case float_at flt parts 0 of Inl e \<Rightarrow> Inl e | Inr lat \<Rightarrow>
      case float_at flt parts 1 of Inl e \<Rightarrow> Inl e | Inr lon \<Rightarrow>
      case altitude_of flt parts of Inl e \<Rightarrow> Inl e | Inr alt \<Rightarrow>
      case getitem parts (- 2) of Inl e \<Rightarrow> Inl e | Inr date_str \<Rightarrow>
      case getitem parts (- 1) of Inl e \<Rightarrow> Inl e | Inr time_str \<Rightarrow>
      case try_parse_datetime date_str time_str of Inl e \<Rightarrow> Inl e | Inr ts \<Rightarrow>
        Inr \<lparr>user_id = uid, latitude = lat, longitude = lon, altitude = alt,
             timestamp = ts\<rparr>)"

text \<open>What the loop body does with one line (lines 38 to 84): append a record, or skip
  the line in one of three ways. \<open>SkipShort raw\<close> and \<open>SkipValueError raw ve\<close> carry what
  goes into \<^verbatim>\<open>bad_lines\<close>; a blank line leaves no sample.\<close>

datatype 'f outcome =
    PointRecord "'f point"
  | SkipBlank
  | SkipShort string
  | SkipValueError string value_error

text \<open>\<open>Inl\<close> is an exception that \<^verbatim>\<open>except ValueError\<close> does not catch and that leaves the
  loop.\<close>

definition parse_line :: "(string \<Rightarrow> 'f option) \<Rightarrow> string \<Rightarrow> string \<Rightarrow> exn + 'f outcome" where
  "parse_line flt uid line =
     (let raw = strip line in
      if raw = [] then Inr SkipBlank
      else
        let parts = split_fields raw in
        if length parts < 6 then Inr (SkipShort raw)
        else
          (case extract_point flt uid parts of
             Inr p \<Rightarrow> Inr (PointRecord p)
           | Inl (ValueError ve) \<Rightarrow> Inr (SkipValueError raw ve)
           | Inl e \<Rightarrow> Inl e))"

subsection \<open>parse\_plt\_file: the file\<close>

text \<open>An entry of \<^verbatim>\<open>bad_lines\<close>: \<^verbatim>\<open>raw\<close>, or \<^verbatim>\<open>f"{raw}  <-- {ve}"\<close>.\<close>

datatype sample = Raw string | RawWithError string value_error

record 'f parse_state =
  data :: "'f point list"
  bad_lines :: "sample list"
  total_lines :: nat
  skipped :: nat

definition initial_state :: "'f parse_state" where
  "initial_state = \<lparr>data = [], bad_lines = [], total_lines = 0, skipped = 0\<rparr>"

text \<open>\<^verbatim>\<open>if len(bad_lines) < 5: bad_lines.append(x)\<close>\<close>

definition add_sample :: "sample list \<Rightarrow> sample \<Rightarrow> sample list" where
  "add_sample bl x = (if length bl < 5 then bl @ [x] else bl)"

text \<open>One turn of \<^verbatim>\<open>for line in f\<close> (lines 37 to 84).\<close>

definition loop_body ::
  "(string \<Rightarrow> 'f option) \<Rightarrow> string \<Rightarrow> 'f parse_state \<Rightarrow> string \<Rightarrow> exn + 'f parse_state" where
  "loop_body flt uid st line =
     (let st1 = st\<lparr>total_lines := total_lines st + 1\<rparr> in
      case parse_line flt uid line of
        Inl e \<Rightarrow> Inl e
      | Inr SkipBlank \<Rightarrow> Inr (st1\<lparr>skipped := skipped st1 + 1\<rparr>)
      | Inr (SkipShort raw) \<Rightarrow>
          Inr (st1\<lparr>skipped := skipped st1 + 1,
                   bad_lines := add_sample (bad_lines st1) (Raw raw)\<rparr>)
      | Inr (SkipValueError raw ve) \<Rightarrow>
          Inr (st1\<lparr>skipped := skipped st1 + 1,
                   bad_lines := add_sample (bad_lines st1) (RawWithError raw ve)\<rparr>)
      | Inr (PointRecord p) \<Rightarrow> Inr (st1\<lparr>data := data st1 @ [p]\<rparr>))"

text \<open>What iterating over the open file yields: a line and the rest, the end of the
  file, or an error of the read.\<close>

datatype reads = Line string reads | EndOfFile | ReadError

datatype plt_file = CannotOpen | Opened reads

text \<open>\<^verbatim>\<open>for _ in range(6): next(f)\<close>, where \<^verbatim>\<open>StopIteration\<close> breaks the loop.\<close>

fun skip_header :: "nat \<Rightarrow> reads \<Rightarrow> exn + reads" where
  "skip_header 0 f = Inr f"
| "skip_header (Suc n) (Line l f) = skip_header n f"
| "skip_header (Suc n) EndOfFile = Inr EndOfFile"
| "skip_header (Suc n) ReadError = Inl OSError"

fun read_lines ::
  "(string \<Rightarrow> 'f option) \<Rightarrow> string \<Rightarrow> 'f parse_state \<Rightarrow> reads \<Rightarrow> exn + 'f parse_state" where
  "read_lines flt uid st (Line l f) =
     (case loop_body flt uid st l of Inl e \<Rightarrow> Inl e | Inr st' \<Rightarrow> read_lines flt uid st' f)"
| "read_lines flt uid st EndOfFile = Inr st"
| "read_lines flt uid st ReadError = Inl OSError"

text \<open>The body of the outer \<^verbatim>\<open>try\<close> (lines 28 to 84).\<close>

definition read_file ::
  "(string \<Rightarrow> 'f option) \<Rightarrow> string \<Rightarrow> plt_file \<Rightarrow> exn + 'f parse_state" where
  "read_file flt uid file =
     (case file of
        CannotOpen \<Rightarrow> Inl OSError
      | Opened f \<Rightarrow>
          (case skip_header 6 f of
             Inl e \<Rightarrow> Inl e
           | Inr f' \<Rightarrow> read_lines flt uid initial_state f'))"

text \<open>The read of the file raises at some point.\<close>

fun read_fails :: "reads \<Rightarrow> bool" where
  "read_fails (Line l f) = read_fails f"
| "read_fails EndOfFile = False"
| "read_fails ReadError = True"

text \<open>What \<^verbatim>\<open>parse_plt_file\<close> prints.\<close>

datatype message =
    ErrorProcessingFile exn
  | FileSummary nat nat
  | SampleHeading
  | SampleLine sample

text \<open>\<^verbatim>\<open>parse_plt_file(filepath, user_id, verbose)\<close>, with the file at \<^verbatim>\<open>filepath\<close> in place
  of its path: the list returned and the messages printed.\<close>

definition parse_plt_file ::
  "(string \<Rightarrow> 'f option) \<Rightarrow> plt_file \<Rightarrow> string \<Rightarrow> bool \<Rightarrow> 'f point list \<times> message list" where
  "parse_plt_file flt file uid verbose =
     (case read_file flt uid file of
        Inl e \<Rightarrow> ([], [ErrorProcessingFile e])
      | Inr st \<Rightarrow>
          (data st,
           if verbose \<and> (skipped st > 0 \<or> total_lines st > 0) then
             FileSummary (total_lines st) (skipped st) #
               (if bad_lines st \<noteq> [] then SampleHeading # map SampleLine (bad_lines st)
                else [])
           else []))"

subsection \<open>process\_geolife\_dataset\<close>

text \<open>An entry of \<^verbatim>\<open>base_path\<close>: not a directory, or a directory with the files of its
  \<^verbatim>\<open>Trajectory\<close> subdirectory (\<open>None\<close> when it has none). A directory is the list of its
  names, each with what it holds.\<close>

datatype user_entry = NotDirectory | Directory "(string \<times> plt_file) list option"

text \<open>\<^verbatim>\<open>str.lower\<close> on one character.\<close>

definition lower_char :: "char \<Rightarrow> char" where
  "lower_char c =
     (if (CHR ''A'' \<le> c \<and> c \<le> CHR ''Z'') \<or> (CHR 0xC0 \<le> c \<and> c \<le> CHR 0xDE \<and> c \<noteq> CHR 0xD7)
      then char_of (of_char c + (32::nat)) else c)"

text \<open>\<^verbatim>\<open>filename.lower().endswith('.plt')\<close>\<close>

definition is_plt :: "string \<Rightarrow> bool" where
  "is_plt filename =
     (let l = map lower_char filename in drop (length l - 4) l = ''.plt'')"

text \<open>\<^verbatim>\<open>limit_files_per_user and file_count >= limit_files_per_user\<close>: \<^verbatim>\<open>None\<close> and 0
  are false.\<close>

definition limit_reached :: "nat option \<Rightarrow> nat \<Rightarrow> bool" where
  "limit_reached limit file_count =
     (case limit of None \<Rightarrow> False | Some n \<Rightarrow> n \<noteq> 0 \<and> file_count \<ge> n)"

text \<open>The loop over the sorted file names of one user (lines 117 to 126): what it adds
  to \<^verbatim>\<open>all_data\<close>.\<close>

fun read_user_files ::
  "(string \<Rightarrow> 'f option) \<Rightarrow> string \<Rightarrow> bool \<Rightarrow> nat option \<Rightarrow> nat \<Rightarrow> (string \<times> plt_file) list
     \<Rightarrow> 'f point list" where
  "read_user_files flt uid verbose limit file_count [] = []"
| "read_user_files flt uid verbose limit file_count ((filename, file) # rest) =
     (if \<not> is_plt filename then read_user_files flt uid verbose limit file_count rest
      else
        let file_data = fst (parse_plt_file flt file uid verbose) in
        if limit_reached limit (file_count + 1) then file_data
        else file_data @ read_user_files flt uid verbose limit (file_count + 1) rest)"

text \<open>The loop over the sorted names of \<^verbatim>\<open>base_path\<close> (lines 102 to 129): \<^verbatim>\<open>all_data\<close>.\<close>

fun read_users ::
  "(string \<Rightarrow> 'f option) \<Rightarrow> bool \<Rightarrow> nat option \<Rightarrow> (string \<times> user_entry) list \<Rightarrow> 'f point list" where
  "read_users flt verbose limit [] = []"
| "read_users flt verbose limit ((user_dir_name, entry) # rest) =
     (case entry of
        NotDirectory \<Rightarrow> read_users flt verbose limit rest
      | Directory None \<Rightarrow> read_users flt verbose limit rest
      | Directory (Some files) \<Rightarrow>
          read_user_files flt user_dir_name verbose limit 0 (sort_key fst files)
            @ read_users flt verbose limit rest)"

definition collect_all ::
  "(string \<Rightarrow> 'f option) \<Rightarrow> (string \<times> user_entry) list \<Rightarrow> bool \<Rightarrow> nat option \<Rightarrow> 'f point list" where
  "collect_all flt base verbose limit = read_users flt verbose limit (sort_key fst base)"

text \<open>The order of \<^verbatim>\<open>datetime\<close> objects is the order of their fields, the year first.\<close>

definition ts_key :: "datetime \<Rightarrow> nat \<times> nat \<times> nat \<times> nat \<times> nat \<times> nat" where
  "ts_key t = (year t, month t, day t, hour t, minute t, second t)"

text \<open>The key of \<^verbatim>\<open>sort_values(by=['user_id', 'timestamp'])\<close>.\<close>

definition row_key :: "'f point \<Rightarrow> string \<times> nat \<times> nat \<times> nat \<times> nat \<times> nat \<times> nat" where
  "row_key p = (user_id p, ts_key (timestamp p))"

text \<open>\<^verbatim>\<open>numpy.lexsort\<close> on two keys, the last of them the primary one: an indirect stable
  sort, that is a stable sort by the first key followed by a stable sort by the last.\<close>

definition lexsort :: "('a \<Rightarrow> 'j::linorder) \<Rightarrow> ('a \<Rightarrow> 'k::linorder) \<Rightarrow> 'a list \<Rightarrow> 'a list" where
  "lexsort secondary primary rows = sort_key primary (sort_key secondary rows)"

text \<open>\<^verbatim>\<open>df.sort_values(by=['user_id', 'timestamp'])\<close>, ascending. With more than one column
  pandas does not use the \<^verbatim>\<open>kind\<close> argument: it orders the rows with \<^verbatim>\<open>lexsort_indexer\<close>,
  which hands the columns to \<^verbatim>\<open>numpy.lexsort\<close> in reverse, the first column of \<^verbatim>\<open>by\<close> as
  the primary key.\<close>

definition sort_values :: "'f point list \<Rightarrow> 'f point list" where
  "sort_values rows = lexsort (\<lambda>p. ts_key (timestamp p)) user_id rows"

text \<open>A line of the file \<^verbatim>\<open>to_csv(index=False)\<close> writes: the column names, or the five
  values of a row.\<close>

datatype 'f csv_line = Header "string list" | Row string 'f 'f 'f datetime

definition to_csv :: "'f point list \<Rightarrow> 'f csv_line list" where
  "to_csv rows =
     Header [''user_id'', ''latitude'', ''longitude'', ''altitude'', ''timestamp''] #
     map (\<lambda>p. Row (user_id p) (latitude p) (longitude p) (altitude p) (timestamp p)) rows"

text \<open>\<^verbatim>\<open>process_geolife_dataset\<close>: the file written, \<open>None\<close> when none is.\<close>

definition process_geolife_dataset ::
  "(string \<Rightarrow> 'f option) \<Rightarrow> (string \<times> user_entry) list \<Rightarrow> bool \<Rightarrow> nat option
     \<Rightarrow> 'f csv_line list option" where
  "process_geolife_dataset flt base verbose limit =
     (let all_data = collect_all flt base verbose limit in
      if all_data \<noteq> [] then Some (to_csv (sort_values all_data)) else None)"

subsection \<open>A reading of float for sample lines\<close>

text \<open>The value of a literal: \<open>Decimal m e\<close> is \<open>m \<times> 10\<^sup>e\<close>, before \<^verbatim>\<open>float\<close> rounds it to
  a binary64 number.\<close>

datatype pyfloat = Decimal int int | Infinite bool | NaN

definition is_digit :: "char \<Rightarrow> bool" where
  "is_digit c = (CHR ''0'' \<le> c \<and> c \<le> CHR ''9'')"

text \<open>\<^verbatim>\<open>digitpart ::= digit (["_"] digit)*\<close>: the digits, without the underscores.\<close>

fun digitpart :: "string \<Rightarrow> string option" where
  "digitpart [] = None"
| "digitpart [c] = (if is_digit c then Some [c] else None)"
| "digitpart (c # d # cs) =
     (if \<not> is_digit c then None
      else if d = CHR ''_'' then map_option ((#) c) (digitpart cs)
      else map_option ((#) c) (digitpart (d # cs)))"

definition nat_of_digits :: "string \<Rightarrow> nat" where
  "nat_of_digits s = foldl (\<lambda>a c. 10 * a + digit_value c) 0 s"

text \<open>\<^verbatim>\<open>number ::= [digitpart] "." digitpart | digitpart ["."]\<close>: the digits before and
  after the point.\<close>

definition number :: "string \<Rightarrow> (string \<times> string) option" where
  "number s =
     (let ip = takeWhile (\<lambda>c. c \<noteq> CHR ''.'') s; rest = dropWhile (\<lambda>c. c \<noteq> CHR ''.'') s in
      case rest of
        [] \<Rightarrow> map_option (\<lambda>ds. (ds, [])) (digitpart ip)
      | _ # fp \<Rightarrow>
          if ip = [] \<and> fp = [] then None
          else
            (case (if ip = [] then Some [] else digitpart ip,
                   if fp = [] then Some [] else digitpart fp) of
               (Some ds, Some fs) \<Rightarrow> Some (ds, fs)
             | _ \<Rightarrow> None))"

text \<open>\<^verbatim>\<open>exponent ::= ("e" | "E") [sign] digitpart\<close>, or nothing.\<close>

definition exponent :: "string \<Rightarrow> int option" where
  "exponent s =
     (case s of
        [] \<Rightarrow> Some 0
      | _ # r \<Rightarrow>
          (case r of
             [] \<Rightarrow> None
           | c # r' \<Rightarrow>
               if c = CHR ''-'' then map_option (\<lambda>ds. - int (nat_of_digits ds)) (digitpart r')
               else if c = CHR ''+'' then map_option (\<lambda>ds. int (nat_of_digits ds)) (digitpart r')
               else map_option (\<lambda>ds. int (nat_of_digits ds)) (digitpart r)))"

definition float_literal :: "string \<Rightarrow> pyfloat option" where
  "float_literal s =
     (let t = strip s;
          neg = (t \<noteq> [] \<and> hd t = CHR ''-'');
          u = (if t \<noteq> [] \<and> (hd t = CHR ''-'' \<or> hd t = CHR ''+'') then tl t else t);
          l = map lower_char u;
          not_e = (\<lambda>c. c \<noteq> CHR ''e'' \<and> c \<noteq> CHR ''E'')
      in if l = ''inf'' \<or> l = ''infinity'' then Some (Infinite neg)
         else if l = ''nan'' then Some NaN
         else
           (case number (takeWhile not_e u) of
              None \<Rightarrow> None
            | Some (ds, fs) \<Rightarrow>
                (case exponent (dropWhile not_e u) of
                   None \<Rightarrow> None
                 | Some e \<Rightarrow>
                     Some (Decimal ((if neg then - 1 else 1) * int (nat_of_digits (ds @ fs)))
                                   (e - int (length fs))))))"

subsection \<open>Writing an instant in the four layouts\<close>

text \<open>The layouts of the specification, with every field at its full width: the date
  text and the time text of an instant.\<close>

definition digit_char :: "nat \<Rightarrow> char" where
  "digit_char n = char_of (48 + n)"

definition pad2 :: "nat \<Rightarrow> string" where
  "pad2 n = [digit_char (n div 10 mod 10), digit_char (n mod 10)]"

definition pad4 :: "nat \<Rightarrow> string" where
  "pad4 n = [digit_char (n div 1000 mod 10), digit_char (n div 100 mod 10),
             digit_char (n div 10 mod 10), digit_char (n mod 10)]"

definition hms :: "datetime \<Rightarrow> string" where
  "hms t = pad2 (hour t) @ '':'' @ pad2 (minute t) @ '':'' @ pad2 (second t)"

text \<open>\<^verbatim>\<open>YYYY-MM-DD HH:MM:SS\<close>\<close>

definition layout1 :: "datetime \<Rightarrow> string \<times> string" where
  "layout1 t = (pad4 (year t) @ ''-'' @ pad2 (month t) @ ''-'' @ pad2 (day t), hms t)"

text \<open>\<^verbatim>\<open>YYYY/MM/DD HH:MM:SS\<close>\<close>

definition layout2 :: "datetime \<Rightarrow> string \<times> string" where
  "layout2 t = (pad4 (year t) @ ''/'' @ pad2 (month t) @ ''/'' @ pad2 (day t), hms t)"

text \<open>\<^verbatim>\<open>DD-MM-YYYY HH:MM:SS\<close>\<close>

definition layout3 :: "datetime \<Rightarrow> string \<times> string" where
  "layout3 t = (pad2 (day t) @ ''-'' @ pad2 (month t) @ ''-'' @ pad4 (year t), hms t)"

text \<open>\<^verbatim>\<open>YYYY-MM-DD HH:MM\<close>\<close>

definition layout4 :: "datetime \<Rightarrow> string \<times> string" where
  "layout4 t = (pad4 (year t) @ ''-'' @ pad2 (month t) @ ''-'' @ pad2 (day t),
                pad2 (hour t) @ '':'' @ pad2 (minute t))"

text \<open>Parsing the text of a layout.\<close>

definition parse_layout :: "string \<times> string \<Rightarrow> exn + datetime" where
  "parse_layout dt = try_parse_datetime (fst dt) (snd dt)"

subsection \<open>A sample tree\<close>

text \<open>Two users and a plain file under \<^verbatim>\<open>base_path\<close>, listed in no particular order; each
  trajectory file has its six header lines.\<close>

definition sample_base :: "(string \<times> user_entry) list" where
  "sample_base =
     [(''001'', Directory (Some
         [(''b.plt'', Opened (Line ''h1'' (Line ''h2'' (Line ''h3'' (Line ''h4'' (Line ''h5''
            (Line ''h6'' (Line ''39.9,116.3,0,492,39744.1,2008-10-24,02:53:04''
            (Line ''39.8,116.3,0,492,39744.1,2008-10-23,02:53:04'' EndOfFile)))))))))])),
      (''readme.txt'', NotDirectory),
      (''000'', Directory (Some
         [(''a.PLT'', Opened (Line ''h1'' (Line ''h2'' (Line ''h3'' (Line ''h4'' (Line ''h5''
            (Line ''h6'' (Line ''40.0,116.3,0,492,39744.1,2008-10-25,02:53:04''
            EndOfFile))))))))]))]"

text \<open>One user whose file holds two records with the same timestamp, around an earlier
  one.\<close>

definition sample_ties :: "(string \<times> user_entry) list" where
  "sample_ties =
     [(''000'', Directory (Some
         [(''a.plt'', Opened (Line ''h1'' (Line ''h2'' (Line ''h3'' (Line ''h4'' (Line ''h5''
            (Line ''h6'' (Line ''1.0,116.3,0,492,39744.1,2008-10-24,02:53:04''
            (Line ''2.0,116.3,0,492,39744.1,2008-10-23,02:53:04''
            (Line ''3.0,116.3,0,492,39744.1,2008-10-24,02:53:04'' EndOfFile))))))))))]))]"

section \<open>Properties\<close>

subsection \<open>Indexing and the extraction of one line\<close>

lemma getitem_nonneg: "i < length xs \<Longrightarrow> getitem xs (int i) = Inr (xs ! i)"
  by (simp add: getitem_def)

lemma getitem_neg: "0 < k \<Longrightarrow> k \<le> length xs \<Longrightarrow> getitem xs (- int k) = Inr (xs ! (length xs - k))"
  by (simp add: getitem_def Let_def nat_diff_distrib' of_nat_diff)

lemma getitem_cases: "getitem xs i = Inl IndexError \<or> (\<exists>x. getitem xs i = Inr x)"
  by (simp add: getitem_def Let_def)

lemma float_at_ok:
  assumes "getitem parts i = Inr s"
  shows "float_at flt parts i = (case flt s of None \<Rightarrow> Inl (ValueError (CouldNotConvert s)) | Some v \<Rightarrow> Inr v)"
  using assms by (simp add: float_at_def float_of_def)

lemma try_parse_datetime_error:
  "try_parse_datetime d t = Inl e \<Longrightarrow> e = ValueError (UnknownDatetimeFormat (d @ '' '' @ t))"
  by (auto simp: try_parse_datetime_def Let_def split: option.splits)

lemma float_at_error:
  "float_at flt parts i = Inl e \<Longrightarrow> getitem parts i \<noteq> Inl IndexError \<Longrightarrow> \<exists>ve. e = ValueError ve"
  using getitem_cases[of parts i]
  by (auto simp: float_at_def float_of_def split: sum.splits option.splits)

lemma altitude_of_long:
  assumes "3 < length parts"
  shows "altitude_of flt parts =
     (case flt (parts ! 3) of Some a \<Rightarrow> Inr a | None \<Rightarrow> float_at flt parts (- 3))"
proof -
  have "getitem parts 3 = Inr (parts ! 3)"
    using getitem_nonneg[of 3 parts] assms by simp
  then show ?thesis
    using assms by (simp add: altitude_of_def float_at_ok split: option.splits)
qed

lemma getitem_six:
  assumes "6 \<le> length parts"
  shows "getitem parts 0 = Inr (parts ! 0)"
    and "getitem parts 1 = Inr (parts ! 1)"
    and "getitem parts 3 = Inr (parts ! 3)"
    and "getitem parts (- 3) = Inr (parts ! (length parts - 3))"
    and "getitem parts (- 2) = Inr (parts ! (length parts - 2))"
    and "getitem parts (- 1) = Inr (parts ! (length parts - 1))"
  using assms getitem_neg[of 3 parts] getitem_neg[of 2 parts] getitem_neg[of 1 parts]
  by (auto simp: getitem_def)

lemma extract_point_error:
  assumes "6 \<le> length parts" and "extract_point flt uid parts = Inl e"
  shows "\<exists>ve. e = ValueError ve"
proof -
  have "3 < length parts" using assms(1) by simp
  then have alt: "altitude_of flt parts = Inl e \<Longrightarrow> \<exists>ve. e = ValueError ve"
    using getitem_six(4)[OF assms(1)]
    by (auto simp: altitude_of_long float_at_ok split: option.splits)
  show ?thesis
    using assms(2) getitem_six[OF assms(1)] alt try_parse_datetime_error
    by (auto simp: extract_point_def float_at_ok split: sum.splits option.splits)
qed

lemma parse_line_returns: "\<exists>out. parse_line flt uid line = Inr out"
proof (cases "strip line \<noteq> [] \<and> 6 \<le> length (split_fields (strip line))")
  case True
  then show ?thesis
    using extract_point_error[of "split_fields (strip line)" flt uid]
    by (cases "extract_point flt uid (split_fields (strip line))")
       (auto simp: parse_line_def Let_def)
next
  case False
  then show ?thesis by (auto simp: parse_line_def Let_def)
qed

lemma split_fields_Nil: "split_fields [] = []"
  by (simp add: split_fields_def split_def strip_def)

text \<open>
  Claim C10. When a line has at least 6 fields, which is what the parser requires before
  it extracts anything, the branch of the altitude for 3 or fewer fields is not taken,
  and every index the extraction reads (0, 1, 3, -3, -2 and -1) is in range: extraction
  raises no \<^verbatim>\<open>IndexError\<close>.
\<close>

theorem extraction_in_bounds:
  assumes "6 \<le> length parts"
  shows "\<not> length parts \<le> 3 \<and>
         getitem parts 0 = Inr (parts ! 0) \<and>
         getitem parts 1 = Inr (parts ! 1) \<and>
         getitem parts 3 = Inr (parts ! 3) \<and>
         getitem parts (- 3) = Inr (parts ! (length parts - 3)) \<and>
         getitem parts (- 2) = Inr (parts ! (length parts - 2)) \<and>
         getitem parts (- 1) = Inr (parts ! (length parts - 1)) \<and>
         altitude_of flt parts =
           (case float_at flt parts 3 of Inr a \<Rightarrow> Inr a | Inl _ \<Rightarrow> float_at flt parts (- 3)) \<and>
         extract_point flt uid parts \<noteq> Inl IndexError"
proof -
  have len: "\<not> length parts \<le> 3" using assms by simp
  have branch: "altitude_of flt parts =
      (case float_at flt parts 3 of Inr a \<Rightarrow> Inr a | Inl _ \<Rightarrow> float_at flt parts (- 3))"
    using len by (simp add: altitude_of_def)
  have ex: "extract_point flt uid parts \<noteq> Inl IndexError"
    using extract_point_error[OF assms, of flt uid IndexError] by auto
  show ?thesis using len getitem_six[OF assms] branch ex by blast
qed

theorem extraction_in_bounds_witness:
  "6 \<le> length [''39.9'', ''116.3'', ''0'', ''492'', ''39744.1'', ''2008-10-23'', ''02:53:04''] \<and>
   getitem [''39.9'', ''116.3'', ''0'', ''492'', ''39744.1'', ''2008-10-23'', ''02:53:04''] (- 3)
     = Inr ''39744.1'' \<and>
   extract_point float_literal ''000''
     [''39.9'', ''116.3'', ''0'', ''492'', ''39744.1'', ''2008-10-23'', ''02:53:04'']
     \<noteq> Inl IndexError"
  using extraction_in_bounds
    [of "[''39.9'', ''116.3'', ''0'', ''492'', ''39744.1'', ''2008-10-23'', ''02:53:04'']"
        float_literal "''000''"]
  by simp

text \<open>
  Claim C1. For every line and every owner identifier the parser returns an outcome, a
  point record or one of the skips, and no exception leaves it: whatever the extraction
  raises on a line with 6 fields or more is a \<^verbatim>\<open>ValueError\<close> (a number or the timestamp that
  does not parse), and the line is then skipped with that error.
\<close>

theorem parse_line_classifies:
  "(\<exists>out. parse_line flt uid line = Inr out) \<and>
   (\<forall>e. strip line \<noteq> [] \<and> 6 \<le> length (split_fields (strip line)) \<and>
        extract_point flt uid (split_fields (strip line)) = Inl e \<longrightarrow>
        (\<exists>ve. e = ValueError ve \<and>
              parse_line flt uid line = Inr (SkipValueError (strip line) ve)))"
proof (intro conjI allI impI)
  show "\<exists>out. parse_line flt uid line = Inr out" by (rule parse_line_returns)
next
  fix e
  assume h: "strip line \<noteq> [] \<and> 6 \<le> length (split_fields (strip line)) \<and>
        extract_point flt uid (split_fields (strip line)) = Inl e"
  then obtain ve where "e = ValueError ve"
    using extract_point_error[of "split_fields (strip line)" flt uid e] by auto
  then show "\<exists>ve. e = ValueError ve \<and>
              parse_line flt uid line = Inr (SkipValueError (strip line) ve)"
    using h by (simp add: parse_line_def Let_def)
qed

theorem parse_line_classifies_witness:
  "parse_line float_literal ''000'' ''abc,1.0,0,10,2008-10-23,02:53:04''
     = Inr (SkipValueError ''abc,1.0,0,10,2008-10-23,02:53:04'' (CouldNotConvert ''abc'')) \<and>
   parse_line float_literal ''000'' ''39.9,116.3,0,492,39744.1,2008-13-23,02:53:04''
     = Inr (SkipValueError ''39.9,116.3,0,492,39744.1,2008-13-23,02:53:04''
              (UnknownDatetimeFormat ''2008-13-23 02:53:04''))"
proof -
  have s1: "strip ''abc,1.0,0,10,2008-10-23,02:53:04'' = ''abc,1.0,0,10,2008-10-23,02:53:04''"
    by code_simp
  have f1: "split_fields ''abc,1.0,0,10,2008-10-23,02:53:04''
              = [''abc'', ''1.0'', ''0'', ''10'', ''2008-10-23'', ''02:53:04'']"
    by code_simp
  have e1: "extract_point float_literal ''000''
              [''abc'', ''1.0'', ''0'', ''10'', ''2008-10-23'', ''02:53:04'']
              = Inl (ValueError (CouldNotConvert ''abc''))"
    by code_simp
  have s2: "strip ''39.9,116.3,0,492,39744.1,2008-13-23,02:53:04''
              = ''39.9,116.3,0,492,39744.1,2008-13-23,02:53:04''"
    by code_simp
  have f2: "split_fields ''39.9,116.3,0,492,39744.1,2008-13-23,02:53:04''
              = [''39.9'', ''116.3'', ''0'', ''492'', ''39744.1'', ''2008-13-23'', ''02:53:04'']"
    by code_simp
  have e2: "extract_point float_literal ''000''
              [''39.9'', ''116.3'', ''0'', ''492'', ''39744.1'', ''2008-13-23'', ''02:53:04'']
              = Inl (ValueError (UnknownDatetimeFormat ''2008-13-23 02:53:04''))"
    by code_simp
  show ?thesis
    using parse_line_classifies[of float_literal "''000''" "''abc,1.0,0,10,2008-10-23,02:53:04''"]
      parse_line_classifies[of float_literal "''000''"
        "''39.9,116.3,0,492,39744.1,2008-13-23,02:53:04''"]
    by (simp add: s1 f1 e1 s2 f2 e2)
qed

text \<open>
  Claim C7 says that every line with fewer than 6 fields is skipped for its number of
  fields. A blank line has no field at all, and the parser skips it as blank, before it
  counts fields and without a sample.
\<close>

theorem blank_line_counterexample:
  "length (split_fields (strip ''  '')) < 6 \<and>
   parse_line float_literal ''000'' ''  '' = Inr SkipBlank \<and>
   parse_line float_literal ''000'' ''  '' \<noteq> Inr (SkipShort (strip ''  ''))"
  by code_simp

text \<open>
  Claim C7, amended. A line with fewer than 6 fields never yields a point record: when
  it is blank after trimming it is skipped as blank, otherwise it is skipped for its
  number of fields, with the trimmed line as sample. A line with exactly 5 fields is
  never blank, so it is always skipped for its number of fields.
\<close>

theorem short_line_skipped:
  assumes "length (split_fields (strip line)) < 6"
  shows "parse_line flt uid line
           = Inr (if strip line = [] then SkipBlank else SkipShort (strip line)) \<and>
         (\<forall>p. parse_line flt uid line \<noteq> Inr (PointRecord p)) \<and>
         (length (split_fields (strip line)) = 5 \<longrightarrow>
            parse_line flt uid line = Inr (SkipShort (strip line)))"
  using assms split_fields_Nil by (auto simp: parse_line_def Let_def)

theorem short_line_skipped_witness:
  "length (split_fields (strip ''1,2,3,4,5'')) = 5 \<and>
   parse_line float_literal ''000'' ''1,2,3,4,5'' = Inr (SkipShort ''1,2,3,4,5'')"
proof -
  have s: "strip ''1,2,3,4,5'' = ''1,2,3,4,5''" by code_simp
  have l: "length (split_fields ''1,2,3,4,5'') = 5" by code_simp
  show ?thesis
    using short_line_skipped[of "''1,2,3,4,5''" float_literal "''000''"] by (simp add: s l)
qed

lemma extract_point_altitude:
  "extract_point flt uid parts = Inr p \<Longrightarrow> altitude_of flt parts = Inr (altitude p)"
  by (auto simp: extract_point_def split: sum.splits)

lemma parse_line_point:
  assumes "parse_line flt uid line = Inr (PointRecord p)"
  shows "6 \<le> length (split_fields (strip line)) \<and>
         extract_point flt uid (split_fields (strip line)) = Inr p"
  using assms
  by (auto simp: parse_line_def Let_def split: if_splits sum.splits exn.splits)

text \<open>
  Claim C3. The altitude of a line that reaches the extraction: with more than 3 fields it
  is \<^verbatim>\<open>float\<close> of field 3 and, when that fails, \<^verbatim>\<open>float\<close> of the third field from the end;
  with 3 fields or fewer it is \<^verbatim>\<open>float\<close> of the third field from the end. So the altitude
  of a point record is the value of field 3 when field 3 is a number, and otherwise the
  value of the third field from the end, which for a line of 7 fields is field 4.
\<close>

theorem altitude_rule:
  "(length parts \<le> 3 \<longrightarrow> altitude_of flt parts = float_at flt parts (- 3)) \<and>
   (3 < length parts \<longrightarrow>
      altitude_of flt parts =
        (case flt (parts ! 3) of Some a \<Rightarrow> Inr a | None \<Rightarrow> float_at flt parts (- 3))) \<and>
   (parse_line flt uid line = Inr (PointRecord p) \<longrightarrow>
      altitude_of flt (split_fields (strip line)) = Inr (altitude p) \<and>
      (\<forall>a. flt (split_fields (strip line) ! 3) = Some a \<longrightarrow> altitude p = a) \<and>
      (flt (split_fields (strip line) ! 3) = None \<longrightarrow>
         flt (split_fields (strip line) ! (length (split_fields (strip line)) - 3))
           = Some (altitude p)) \<and>
      (length (split_fields (strip line)) = 7 \<and> flt (split_fields (strip line) ! 3) = None \<longrightarrow>
         flt (split_fields (strip line) ! 4) = Some (altitude p)))"
proof (intro conjI impI)
  show "altitude_of flt parts = float_at flt parts (- 3)" if "length parts \<le> 3"
    using that by (simp add: altitude_of_def)
  show "altitude_of flt parts =
        (case flt (parts ! 3) of Some a \<Rightarrow> Inr a | None \<Rightarrow> float_at flt parts (- 3))"
    if "3 < length parts"
    using that by (rule altitude_of_long)
next
  let ?ps = "split_fields (strip line)"
  assume h: "parse_line flt uid line = Inr (PointRecord p)"
  have len: "6 \<le> length ?ps" and ex: "extract_point flt uid ?ps = Inr p"
    using parse_line_point[OF h] by auto
  have alt: "altitude_of flt ?ps = Inr (altitude p)"
    using ex by (rule extract_point_altitude)
  have long: "altitude_of flt ?ps =
        (case flt (?ps ! 3) of Some a \<Rightarrow> Inr a | None \<Rightarrow> float_at flt ?ps (- 3))"
    using len by (intro altitude_of_long) simp
  have fb: "float_at flt ?ps (- 3) =
        (case flt (?ps ! (length ?ps - 3)) of
           None \<Rightarrow> Inl (ValueError (CouldNotConvert (?ps ! (length ?ps - 3))))
         | Some v \<Rightarrow> Inr v)"
    using getitem_six(4)[OF len] by (rule float_at_ok)
  show "altitude_of flt ?ps = Inr (altitude p)" by (rule alt)
  show "\<forall>a. flt (?ps ! 3) = Some a \<longrightarrow> altitude p = a"
    using alt long by auto
  show none: "flt (?ps ! (length ?ps - 3)) = Some (altitude p)" if "flt (?ps ! 3) = None"
    using that alt long fb by (auto split: option.splits)
  show "flt (?ps ! 4) = Some (altitude p)" if "length ?ps = 7 \<and> flt (?ps ! 3) = None"
    using that none by auto
qed

theorem altitude_rule_witness:
  "parse_line float_literal ''000'' ''39.9,116.3,0,abc,492,2008-10-23,02:53:04''
     = Inr (PointRecord
         \<lparr>user_id = ''000'', latitude = Decimal 399 (- 1), longitude = Decimal 1163 (- 1),
          altitude = Decimal 492 0,
          timestamp = \<lparr>year = 2008, month = 10, day = 23, hour = 2, minute = 53, second = 4\<rparr>\<rparr>) \<and>
   length (split_fields (strip ''39.9,116.3,0,abc,492,2008-10-23,02:53:04'')) = 7 \<and>
   float_literal (split_fields (strip ''39.9,116.3,0,abc,492,2008-10-23,02:53:04'') ! 3) = None \<and>
   float_literal (split_fields (strip ''39.9,116.3,0,abc,492,2008-10-23,02:53:04'') ! 4)
     = Some (Decimal 492 0)"
proof -
  let ?l = "''39.9,116.3,0,abc,492,2008-10-23,02:53:04''"
  let ?p = "\<lparr>user_id = ''000'', latitude = Decimal 399 (- 1), longitude = Decimal 1163 (- 1),
          altitude = Decimal 492 0,
          timestamp = \<lparr>year = 2008, month = 10, day = 23, hour = 2, minute = 53, second = 4\<rparr>\<rparr>"
  have f: "split_fields (strip ?l)
             = [''39.9'', ''116.3'', ''0'', ''abc'', ''492'', ''2008-10-23'', ''02:53:04'']"
    by code_simp
  have p: "parse_line float_literal ''000'' ?l = Inr (PointRecord ?p)"
    by code_simp
  have n: "float_literal ''abc'' = None" by code_simp
  show ?thesis
    using altitude_rule[of "split_fields (strip ?l)" float_literal "''000''" ?l ?p]
    by (simp add: f p n)
qed

subsection \<open>The file\<close>

lemma loop_body_returns: "\<exists>st'. loop_body flt uid st line = Inr st'"
  using parse_line_returns[of flt uid line]
  by (auto simp: loop_body_def Let_def split: outcome.splits)

lemma add_sample_bound: "length bl \<le> 5 \<Longrightarrow> length (add_sample bl x) \<le> 5"
  by (simp add: add_sample_def)

lemma add_sample_prefix: "prefix bl (add_sample bl x)"
  by (simp add: add_sample_def)

lemma loop_body_samples:
  assumes "loop_body flt uid st line = Inr st'"
  shows "prefix (bad_lines st) (bad_lines st')"
    and "length (bad_lines st) \<le> 5 \<Longrightarrow> length (bad_lines st') \<le> 5"
  using assms add_sample_prefix add_sample_bound
  by (auto simp: loop_body_def Let_def split: sum.splits outcome.splits)

lemma read_lines_samples:
  "read_lines flt uid st f = Inr st' \<Longrightarrow>
     prefix (bad_lines st) (bad_lines st') \<and>
     (length (bad_lines st) \<le> 5 \<longrightarrow> length (bad_lines st') \<le> 5)"
proof (induction f arbitrary: st)
  case (Line l f)
  then obtain st1 where b: "loop_body flt uid st l = Inr st1"
    and r: "read_lines flt uid st1 f = Inr st'"
    by (auto split: sum.splits)
  from Line.IH[OF r] loop_body_samples[OF b] show ?case
    by (auto intro: prefix_order.trans)
qed simp_all

text \<open>
  Claim C8. \<^verbatim>\<open>bad_lines\<close> only grows at its end and never holds more than 5 entries: each
  turn of the loop keeps the old entries as a prefix and keeps the bound, so do any
  number of turns, and the list at the end of a file has at most 5 entries however many
  lines were skipped.
\<close>

theorem bad_lines_bounded:
  "(loop_body flt uid st line = Inr st' \<and> length (bad_lines st) \<le> 5 \<longrightarrow>
      length (bad_lines st') \<le> 5 \<and> prefix (bad_lines st) (bad_lines st')) \<and>
   (read_lines flt uid st f = Inr st' \<and> length (bad_lines st) \<le> 5 \<longrightarrow>
      length (bad_lines st') \<le> 5 \<and> prefix (bad_lines st) (bad_lines st')) \<and>
   (read_file flt uid file = Inr st' \<longrightarrow> length (bad_lines st') \<le> 5)"
proof (intro conjI impI)
  assume "loop_body flt uid st line = Inr st' \<and> length (bad_lines st) \<le> 5"
  then show "length (bad_lines st') \<le> 5" "prefix (bad_lines st) (bad_lines st')"
    using loop_body_samples[of flt uid st line st'] by auto
next
  assume "read_lines flt uid st f = Inr st' \<and> length (bad_lines st) \<le> 5"
  then show "length (bad_lines st') \<le> 5" "prefix (bad_lines st) (bad_lines st')"
    using read_lines_samples[of flt uid st f st'] by auto
next
  assume "read_file flt uid file = Inr st'"
  then obtain f where "read_lines flt uid initial_state f = Inr st'"
    by (auto simp: read_file_def split: plt_file.splits sum.splits)
  then show "length (bad_lines st') \<le> 5"
    using read_lines_samples[of flt uid initial_state f st'] by (simp add: initial_state_def)
qed

theorem bad_lines_bounded_witness:
  "\<exists>st'. read_file float_literal ''000''
      (Opened (Line ''h1'' (Line ''h2'' (Line ''h3'' (Line ''h4'' (Line ''h5'' (Line ''h6''
        (Line ''a'' (Line ''b'' (Line ''c'' (Line ''d'' (Line ''e'' (Line ''f'' (Line ''g''
          EndOfFile)))))))))))))) = Inr st' \<and>
     skipped st' = 7 \<and>
     bad_lines st' = [Raw ''a'', Raw ''b'', Raw ''c'', Raw ''d'', Raw ''e''] \<and>
     length (bad_lines st') \<le> 5"
proof -
  let ?file = "Opened (Line ''h1'' (Line ''h2'' (Line ''h3'' (Line ''h4'' (Line ''h5'' (Line ''h6''
        (Line ''a'' (Line ''b'' (Line ''c'' (Line ''d'' (Line ''e'' (Line ''f'' (Line ''g''
          EndOfFile)))))))))))))"
  let ?st = "\<lparr>data = [], bad_lines = [Raw ''a'', Raw ''b'', Raw ''c'', Raw ''d'', Raw ''e''],
             total_lines = 7, skipped = 7\<rparr> :: pyfloat parse_state"
  have r: "read_file float_literal ''000'' ?file = Inr ?st"
    by code_simp
  show ?thesis
    using bad_lines_bounded[of float_literal "''000''" initial_state "''a''" ?st EndOfFile ?file] r
    by simp
qed

lemma read_lines_fails:
  "read_fails f \<Longrightarrow> read_lines flt uid st f = Inl OSError"
proof (induction f arbitrary: st)
  case (Line l f)
  then show ?case using loop_body_returns[of flt uid st l] by auto
qed simp_all

lemma read_lines_ends:
  "\<not> read_fails f \<Longrightarrow> \<exists>st'. read_lines flt uid st f = Inr st'"
proof (induction f arbitrary: st)
  case (Line l f)
  then show ?case using loop_body_returns[of flt uid st l] by auto
qed simp_all

lemma skip_header_fails:
  "read_fails f \<Longrightarrow> skip_header n f = Inl OSError \<or> (\<exists>f'. skip_header n f = Inr f' \<and> read_fails f')"
  by (induction n f rule: skip_header.induct) auto

lemma skip_header_ends:
  "\<not> read_fails f \<Longrightarrow> \<exists>f'. skip_header n f = Inr f' \<and> \<not> read_fails f'"
  by (induction n f rule: skip_header.induct) auto

lemma read_file_fails: "read_fails f \<Longrightarrow> read_file flt uid (Opened f) = Inl OSError"
  using skip_header_fails[of f 6] read_lines_fails
  by (auto simp: read_file_def split: sum.splits)

lemma read_file_ends: "\<not> read_fails f \<Longrightarrow> \<exists>st. read_file flt uid (Opened f) = Inr st"
  using skip_header_ends[of f 6] read_lines_ends
  by (fastforce simp: read_file_def split: sum.splits)

text \<open>
  Claim C9. An exception that leaves the loop makes \<^verbatim>\<open>parse_plt_file\<close> report it and
  return the empty list, whatever was parsed before: so it is when the file cannot be
  opened and when a read fails, also after lines that gave records. When every read
  succeeds the file is read to its end and the records collected are returned; no line
  makes the loop raise.
\<close>

theorem file_all_or_nothing:
  "(read_file flt uid file = Inl e \<longrightarrow>
      parse_plt_file flt file uid verbose = ([], [ErrorProcessingFile e])) \<and>
   parse_plt_file flt CannotOpen uid verbose = ([], [ErrorProcessingFile OSError]) \<and>
   (read_fails f \<longrightarrow>
      parse_plt_file flt (Opened f) uid verbose = ([], [ErrorProcessingFile OSError])) \<and>
   (\<not> read_fails f \<longrightarrow>
      (\<exists>st. read_file flt uid (Opened f) = Inr st \<and>
            fst (parse_plt_file flt (Opened f) uid verbose) = data st))"
proof (intro conjI impI)
  show "parse_plt_file flt file uid verbose = ([], [ErrorProcessingFile e])"
    if "read_file flt uid file = Inl e"
    using that by (simp add: parse_plt_file_def)
  show "parse_plt_file flt CannotOpen uid verbose = ([], [ErrorProcessingFile OSError])"
    by (simp add: parse_plt_file_def read_file_def)
  show "parse_plt_file flt (Opened f) uid verbose = ([], [ErrorProcessingFile OSError])"
    if "read_fails f"
    using read_file_fails[OF that, of flt uid] by (simp add: parse_plt_file_def)
  show "\<exists>st. read_file flt uid (Opened f) = Inr st \<and>
            fst (parse_plt_file flt (Opened f) uid verbose) = data st"
    if "\<not> read_fails f"
    using read_file_ends[OF that, of flt uid] by (auto simp: parse_plt_file_def)
qed

theorem file_all_or_nothing_witness:
  "read_fails (Line ''h1'' (Line ''h2'' (Line ''h3'' (Line ''h4'' (Line ''h5'' (Line ''h6''
      (Line ''39.9,116.3,0,492,39744.1,2008-10-23,02:53:04'' ReadError))))))) \<and>
   parse_plt_file float_literal
     (Opened (Line ''h1'' (Line ''h2'' (Line ''h3'' (Line ''h4'' (Line ''h5'' (Line ''h6''
       (Line ''39.9,116.3,0,492,39744.1,2008-10-23,02:53:04'' ReadError)))))))) ''000'' False
     = ([], [ErrorProcessingFile OSError]) \<and>
   length (fst (parse_plt_file float_literal
     (Opened (Line ''h1'' (Line ''h2'' (Line ''h3'' (Line ''h4'' (Line ''h5'' (Line ''h6''
       (Line ''39.9,116.3,0,492,39744.1,2008-10-23,02:53:04'' EndOfFile)))))))) ''000'' False))
     = 1"
proof -
  have one: "length (fst (parse_plt_file float_literal
     (Opened (Line ''h1'' (Line ''h2'' (Line ''h3'' (Line ''h4'' (Line ''h5'' (Line ''h6''
       (Line ''39.9,116.3,0,492,39744.1,2008-10-23,02:53:04'' EndOfFile)))))))) ''000'' False))
     = 1"
    by code_simp
  show ?thesis
    using file_all_or_nothing[of float_literal "''000''" CannotOpen OSError False
      "Line ''h1'' (Line ''h2'' (Line ''h3'' (Line ''h4'' (Line ''h5'' (Line ''h6''
        (Line ''39.9,116.3,0,492,39744.1,2008-10-23,02:53:04'' ReadError))))))"] one
    by simp
qed

subsection \<open>Timestamps\<close>

lemma match_items_groups:
  "(g, r) \<in> set (match_items its s) \<Longrightarrow> map fst g = directives its"
proof (induction its s arbitrary: g r rule: match_items.induct)
  case (1 s)
  then show ?case by simp
next
  case (2 a its s)
  then show ?case by (auto split: list.splits if_splits)
next
  case (3 its s)
  then show ?case by auto
next
  case (4 d its s)
  from "4.prems" obtain alts where a: "directive_regex d = Some alts"
    by (cases "directive_regex d") auto
  with "4.prems" obtain m r0 g0 where x: "(m, r0) \<in> set (alternatives alts s)"
    and y: "(g0, r) \<in> set (match_items its r0)" and g: "g = (d, m) # g0"
    by auto
  from "4.IH"[OF a x refl y] g show ?case by simp
qed

lemma re_match_groups: "re_match its s = Some (g, r) \<Longrightarrow> map fst g = directives its"
  using match_items_groups[of g r its s]
  by (auto simp: re_match_def split: list.splits)

lemma pattern_candidates:
  "pattern ''%Y-%m-%d %H:%M:%S'' =
     Some [Directive CHR ''Y'', Literal CHR ''-'', Directive CHR ''m'', Literal CHR ''-'',
           Directive CHR ''d'', Whitespace, Directive CHR ''H'', Literal CHR '':'',
           Directive CHR ''M'', Literal CHR '':'', Directive CHR ''S'']"
  "pattern ''%Y/%m/%d %H:%M:%S'' =
     Some [Directive CHR ''Y'', Literal CHR ''/'', Directive CHR ''m'', Literal CHR ''/'',
           Directive CHR ''d'', Whitespace, Directive CHR ''H'', Literal CHR '':'',
           Directive CHR ''M'', Literal CHR '':'', Directive CHR ''S'']"
  "pattern ''%d-%m-%Y %H:%M:%S'' =
     Some [Directive CHR ''d'', Literal CHR ''-'', Directive CHR ''m'', Literal CHR ''-'',
           Directive CHR ''Y'', Whitespace, Directive CHR ''H'', Literal CHR '':'',
           Directive CHR ''M'', Literal CHR '':'', Directive CHR ''S'']"
  "pattern ''%Y-%m-%d %H:%M'' =
     Some [Directive CHR ''Y'', Literal CHR ''-'', Directive CHR ''m'', Literal CHR ''-'',
           Directive CHR ''d'', Whitespace, Directive CHR ''H'', Literal CHR '':'',
           Directive CHR ''M'']"
  by (simp_all add: pattern_def isspace_def)

lemma strptime_no_seconds:
  assumes "strptime ts ''%Y-%m-%d %H:%M'' = Some t"
  shows "second t = 0"
proof -
  let ?its = "[Directive CHR ''Y'', Literal CHR ''-'', Directive CHR ''m'', Literal CHR ''-'',
           Directive CHR ''d'', Whitespace, Directive CHR ''H'', Literal CHR '':'',
           Directive CHR ''M'']"
  from assms obtain found where m: "re_match ?its ts = Some (found, [])"
    and t: "datetime_new (group_or found CHR ''Y'' 1900) (group_or found CHR ''m'' 1)
              (group_or found CHR ''d'' 1) (group_or found CHR ''H'' 0)
              (group_or found CHR ''M'' 0) (group_or found CHR ''S'' 0) = Some t"
    by (auto simp: strptime_def pattern_candidates split: option.splits if_splits)
  have "map fst found = directives ?its" using m by (rule re_match_groups)
  then have "fst ` set found = set (directives ?its)"
    by (metis list.set_map)
  then have "CHR ''S'' \<notin> fst ` set found"
    by simp
  then have "map_of found CHR ''S'' = None" by (simp add: map_of_eq_None_iff)
  then have "group_or found CHR ''S'' 0 = 0" by (simp add: group_or_def)
  with t show ?thesis
    by (auto simp: datetime_new_def Let_def split: if_splits)
qed

lemma strptime_full_match:
  assumes "strptime ts fmt = Some t"
  shows "\<exists>its found. pattern fmt = Some its \<and> re_match its ts = Some (found, [])"
  using assms by (auto simp: strptime_def split: option.splits if_splits)

lemma try_parse_datetime_unfold:
  "try_parse_datetime date_str time_str =
     (let ts = date_str @ '' '' @ time_str in
      case strptime ts ''%Y-%m-%d %H:%M:%S'' of Some t \<Rightarrow> Inr t | None \<Rightarrow>
      case strptime ts ''%Y/%m/%d %H:%M:%S'' of Some t \<Rightarrow> Inr t | None \<Rightarrow>
      case strptime ts ''%d-%m-%Y %H:%M:%S'' of Some t \<Rightarrow> Inr t | None \<Rightarrow>
      case strptime ts ''%Y-%m-%d %H:%M'' of Some t \<Rightarrow> Inr t | None \<Rightarrow>
        Inl (ValueError (UnknownDatetimeFormat ts)))"
  by (simp add: try_parse_datetime_def candidates_def Let_def split: option.splits)

lemma try_formats_None:
  "(\<forall>fmt\<in>set fmts. strptime ts fmt = None) \<Longrightarrow> try_formats ts fmts = None"
  by (induction fmts) auto


lemma extract_point_bad_timestamp:
  assumes "6 \<le> length parts"
    and "try_formats (parts ! (length parts - 2) @ '' '' @ parts ! (length parts - 1)) candidates
           = None"
  shows "\<forall>p. extract_point flt uid parts \<noteq> Inr p"
    and "float_at flt parts 0 = Inr a \<Longrightarrow> float_at flt parts 1 = Inr b \<Longrightarrow>
         altitude_of flt parts = Inr c \<Longrightarrow>
         extract_point flt uid parts =
           Inl (ValueError (UnknownDatetimeFormat
                  (parts ! (length parts - 2) @ '' '' @ parts ! (length parts - 1))))"
  using assms(2) getitem_six(5,6)[OF assms(1)]
  by (auto simp: extract_point_def try_parse_datetime_def Let_def split: sum.splits)

subsection \<open>The four layouts\<close>

text \<open>Digits as characters: how they compare, and what the groups read back.\<close>

lemma of_char_digit_char: "k < 10 \<Longrightarrow> of_char (digit_char k) = (48 + k :: nat)"
  by (simp add: digit_char_def)

lemma digit_char_eq: "k < 10 \<Longrightarrow> (digit_char k = c) = (of_char c = (48 + k :: nat))"
proof
  assume "k < 10" and "digit_char k = c"
  then show "of_char c = (48 + k :: nat)" using of_char_digit_char by blast
next
  assume "k < 10" and h: "of_char c = (48 + k :: nat)"
  show "digit_char k = c" unfolding digit_char_def h[symmetric] by (rule char_of_char)
qed

lemma digit_char_eq': "k < 10 \<Longrightarrow> (c = digit_char k) = (of_char c = (48 + k :: nat))"
  using digit_char_eq[of k c] by auto

lemma digit_char_le:
  "k < 10 \<Longrightarrow> (c \<le> digit_char k) = (of_char c \<le> (48 + k :: nat))"
  "k < 10 \<Longrightarrow> (digit_char k \<le> c) = ((48 + k :: nat) \<le> of_char c)"
  by (simp_all add: less_eq_char_def of_char_digit_char)

lemmas digit_char_simps = digit_char_eq digit_char_eq' digit_char_le of_char_digit_char

lemma isspace_digit_char: "k < 10 \<Longrightarrow> \<not> isspace (digit_char k)"
  by (simp add: isspace_def digit_char_eq)

lemma digit_value_digit_char: "k < 10 \<Longrightarrow> digit_value (digit_char k) = k"
  by (simp add: digit_value_def of_char_digit_char)

lemma pad2_digits:
  assumes "n < 100"
  obtains a b where "a < 10" "b < 10" "n = 10 * a + b" "pad2 n = [digit_char a, digit_char b]"
proof
  show "n div 10 mod 10 < 10" "n mod 10 < 10" by simp_all
  show "n = 10 * (n div 10 mod 10) + n mod 10" using assms by simp
  show "pad2 n = [digit_char (n div 10 mod 10), digit_char (n mod 10)]" by (simp add: pad2_def)
qed

lemma pad4_digits:
  assumes "n < 10000"
  obtains a b c d where "a < 10" "b < 10" "c < 10" "d < 10"
    "n = 1000 * a + 100 * b + 10 * c + d"
    "pad4 n = [digit_char a, digit_char b, digit_char c, digit_char d]"
proof
  show "n div 1000 mod 10 < 10" "n div 100 mod 10 < 10" "n div 10 mod 10 < 10" "n mod 10 < 10"
    by simp_all
  define q1 q2 q3 r0 r1 r2 where "q1 = n div 10" and "q2 = q1 div 10" and "q3 = q2 div 10"
    and "r0 = n mod 10" and "r1 = q1 mod 10" and "r2 = q2 mod 10"
  have e: "n = 10 * q1 + r0" "q1 = 10 * q2 + r1" "q2 = 10 * q3 + r2"
    by (simp_all add: q1_def q2_def q3_def r0_def r1_def r2_def)
  have q2': "q2 = n div 100" and q3: "q3 = n div 1000"
    by (simp_all add: q1_def q2_def q3_def div_mult2_eq[symmetric])
  have q3': "q3 = n div 1000 mod 10" using assms q3 by simp
  have r2': "r2 = n div 100 mod 10" using q2' by (simp add: r2_def)
  have r1': "r1 = n div 10 mod 10" by (simp add: r1_def q1_def)
  have "n = 1000 * q3 + 100 * r2 + 10 * r1 + r0" using e by linarith
  then show "n = 1000 * (n div 1000 mod 10) + 100 * (n div 100 mod 10) + 10 * (n div 10 mod 10)
                  + n mod 10"
    unfolding q3' r2' r1' r0_def .
  show "pad4 n = [digit_char (n div 1000 mod 10), digit_char (n div 100 mod 10),
                  digit_char (n div 10 mod 10), digit_char (n mod 10)]"
    by (simp add: pad4_def)
qed

lemma int_of_group_pad2: 
  assumes "n < 100" shows "int_of_group (pad2 n) = n"
proof -
  from assms obtain a b where d: "a < 10" "b < 10" "n = 10 * a + b"
    "pad2 n = [digit_char a, digit_char b]" by (rule pad2_digits)
  then show ?thesis
    by (simp add: int_of_group_def strip_def isspace_digit_char digit_value_digit_char)
qed

lemma int_of_group_pad4:
  assumes "n < 10000" shows "int_of_group (pad4 n) = n"
proof -
  from assms obtain a b c d where d: "a < 10" "b < 10" "c < 10" "d < 10"
    "n = 1000 * a + 100 * b + 10 * c + d"
    "pad4 n = [digit_char a, digit_char b, digit_char c, digit_char d]" by (rule pad4_digits)
  then show ?thesis
    by (simp add: int_of_group_def strip_def isspace_digit_char digit_value_digit_char)
qed


lemma directive_regex_simps:
  "directive_regex CHR ''d'' =
        Some [[Chr CHR ''3'', Rng CHR ''0'' CHR ''1''], [Rng CHR ''1'' CHR ''2'', dgt],
              [Chr CHR ''0'', Rng CHR ''1'' CHR ''9''], [Rng CHR ''1'' CHR ''9''],
              [Chr CHR '' '', Rng CHR ''1'' CHR ''9'']]"
  "directive_regex CHR ''H'' =
        Some [[Chr CHR ''2'', Rng CHR ''0'' CHR ''3''], [Rng CHR ''0'' CHR ''1'', dgt], [dgt]]"
  "directive_regex CHR ''m'' =
        Some [[Chr CHR ''1'', Rng CHR ''0'' CHR ''2''], [Chr CHR ''0'', Rng CHR ''1'' CHR ''9''],
              [Rng CHR ''1'' CHR ''9'']]"
  "directive_regex CHR ''M'' = Some [[Rng CHR ''0'' CHR ''5'', dgt], [dgt]]"
  "directive_regex CHR ''S'' =
        Some [[Chr CHR ''6'', Rng CHR ''0'' CHR ''1''], [Rng CHR ''0'' CHR ''5'', dgt], [dgt]]"
  "directive_regex CHR ''Y'' = Some [[dgt, dgt, dgt, dgt]]"
  by (simp_all add: directive_regex_def)

lemma alternatives_two_digits:
  assumes "a < 10" and "b < 10"
    and "(d = CHR ''d'' \<and> 1 \<le> 10 * a + b \<and> 10 * a + b \<le> 31) \<or>
         (d = CHR ''m'' \<and> 1 \<le> 10 * a + b \<and> 10 * a + b \<le> 12) \<or>
         (d = CHR ''H'' \<and> 10 * a + b \<le> 23) \<or>
         (d = CHR ''M'' \<and> 10 * a + b \<le> 59) \<or>
         (d = CHR ''S'' \<and> 10 * a + b \<le> 59)"
  shows "\<exists>alts ys. directive_regex d = Some alts \<and>
           alternatives alts (digit_char a # digit_char b # r)
             = ([digit_char a, digit_char b], r) # ys"
  using assms
  by (elim disjE conjE)
     (simp_all add: directive_regex_simps alternatives_def List.map_filter_simps
        digit_char_simps)

lemma alternatives_two_digits_subset:
  assumes "a < 10" and "b < 10" and "d \<in> set ''dmHMS''"
  shows "\<exists>alts. directive_regex d = Some alts \<and>
           set (alternatives alts (digit_char a # digit_char b # r))
             \<subseteq> {([digit_char a, digit_char b], r), ([digit_char a], digit_char b # r)}"
  using assms
  by (auto simp: directive_regex_simps alternatives_def List.map_filter_simps
        digit_char_simps split: if_splits)

lemma alternatives_year:
  assumes "a < 10" "b < 10" "c < 10" "d < 10"
  shows "alternatives [[dgt, dgt, dgt, dgt]]
           (digit_char a # digit_char b # digit_char c # digit_char d # r)
         = [([digit_char a, digit_char b, digit_char c, digit_char d], r)]"
  using assms by (simp add: alternatives_def List.map_filter_simps digit_char_simps)


text \<open>How the expression matches a text made of full-width fields: the rules for a
  match, then the rules for no match.\<close>

lemma re_match_Nil: "re_match [] s = Some ([], s)"
  by (simp add: re_match_def)

lemma re_match_Literal: "re_match its s = x \<Longrightarrow> re_match (Literal a # its) (a # s) = x"
  by (simp add: re_match_def)

lemma match_items_blank:
  assumes "n < 100"
  shows "match_items (Whitespace # its) (CHR '' '' # pad2 n @ r) = match_items its (pad2 n @ r)"
proof -
  from assms obtain a b where d: "a < 10" "b < 10" "pad2 n = [digit_char a, digit_char b]"
    by (rule pad2_digits)
  have "isspace CHR '' ''" by (simp add: isspace_def)
  then show ?thesis using d isspace_digit_char[of a] by simp
qed

lemma re_match_Whitespace:
  "n < 100 \<Longrightarrow> re_match its (pad2 n @ r) = x \<Longrightarrow>
     re_match (Whitespace # its) (CHR '' '' # pad2 n @ r) = x"
  using match_items_blank[of n its r] by (simp add: re_match_def)

lemma re_match_two:
  assumes "n < 100"
    and "(d = CHR ''d'' \<and> 1 \<le> n \<and> n \<le> 31) \<or> (d = CHR ''m'' \<and> 1 \<le> n \<and> n \<le> 12) \<or>
         (d = CHR ''H'' \<and> n \<le> 23) \<or> (d = CHR ''M'' \<and> n \<le> 59) \<or> (d = CHR ''S'' \<and> n \<le> 59)"
    and "re_match its r = Some (g, r')"
  shows "re_match (Directive d # its) (pad2 n @ r) = Some ((d, pad2 n) # g, r')"
proof -
  from assms(1) obtain a b where d: "a < 10" "b < 10" "n = 10 * a + b"
    "pad2 n = [digit_char a, digit_char b]" by (rule pad2_digits)
  obtain alts ys where a: "directive_regex d = Some alts"
    and h: "alternatives alts (digit_char a # digit_char b # r)
              = ([digit_char a, digit_char b], r) # ys"
    using alternatives_two_digits[OF d(1,2), of d r] assms(2) d(3) by auto
  from assms(3) obtain xs where "match_items its r = (g, r') # xs"
    by (auto simp: re_match_def split: list.splits)
  then show ?thesis using a h d(4) by (simp add: re_match_def)
qed

lemma match_items_year:
  assumes "y < 10000"
  shows "match_items (Directive CHR ''Y'' # its) (pad4 y @ r)
           = map (\<lambda>(g, r'). ((CHR ''Y'', pad4 y) # g, r')) (match_items its r)"
proof -
  from assms obtain a b c d where d: "a < 10" "b < 10" "c < 10" "d < 10"
    "pad4 y = [digit_char a, digit_char b, digit_char c, digit_char d]" by (rule pad4_digits)
  show ?thesis
    using alternatives_year[OF d(1-4), of r] by (simp add: directive_regex_simps d(5))
qed

lemma re_match_year:
  assumes "y < 10000" and "re_match its r = Some (g, r')"
  shows "re_match (Directive CHR ''Y'' # its) (pad4 y @ r) = Some ((CHR ''Y'', pad4 y) # g, r')"
  using assms(2) match_items_year[OF assms(1), of its r]
  by (auto simp: re_match_def split: list.splits)


lemma match_items_year_fails:
  "y < 10000 \<Longrightarrow> match_items its r = [] \<Longrightarrow>
     match_items (Directive CHR ''Y'' # its) (pad4 y @ r) = []"
  by (simp only: match_items_year list.map)

lemma match_items_year_short:
  assumes "n < 100"
  shows "match_items (Directive CHR ''Y'' # its) (pad2 n @ CHR ''-'' # r) = []"
proof -
  from assms obtain a b where d: "a < 10" "b < 10" "pad2 n = [digit_char a, digit_char b]"
    by (rule pad2_digits)
  then show ?thesis
    by (simp add: directive_regex_simps alternatives_def List.map_filter_simps)
qed

lemma match_items_Literal_fails:
  "a \<noteq> c \<Longrightarrow> match_items (Literal a # its) (c # s) = []"
  by simp

lemma match_items_Literal_eq:
  "match_items its s = [] \<Longrightarrow> match_items (Literal a # its) (a # s) = []"
  by simp

lemma match_items_separator_digit:
  assumes "k < 10" and "a \<in> set ''-/:''"
  shows "match_items (Literal a # its) (digit_char k # s) = []"
    and "match_items (Whitespace # its) (digit_char k # s) = []"
  using assms isspace_digit_char[of k] by (auto simp: digit_char_simps)

lemma match_items_two_fails:
  assumes "n < 100" and "d \<in> set ''dmHMS''"
    and "match_items its r = []"
    and "\<And>k. k < 10 \<Longrightarrow> match_items its (digit_char k # r) = []"
  shows "match_items (Directive d # its) (pad2 n @ r) = []"
proof -
  from assms(1) obtain a b where d: "a < 10" "b < 10" "pad2 n = [digit_char a, digit_char b]"
    by (rule pad2_digits)
  obtain alts where a: "directive_regex d = Some alts"
    and h: "set (alternatives alts (digit_char a # digit_char b # r))
              \<subseteq> {([digit_char a, digit_char b], r), ([digit_char a], digit_char b # r)}"
    using alternatives_two_digits_subset[OF d(1,2) assms(2), of r] by auto
  have "match_items its r' = []" if "(m, r') \<in> set (alternatives alts (pad2 n @ r))" for m r'
    using that h assms(3) assms(4)[OF d(2)] d(3) by auto
  then show ?thesis using a by auto
qed

lemma match_items_two_Literal_fails:
  assumes "n < 100" and "d \<in> set ''dmHMS''" and "a \<in> set ''-/:''"
    and "match_items (Literal a # its) r = []"
  shows "match_items (Directive d # Literal a # its) (pad2 n @ r) = []"
  using assms(1,2,4) match_items_separator_digit(1)[OF _ assms(3)]
  by (rule match_items_two_fails)

lemma match_items_two_Whitespace_fails:
  assumes "n < 100" and "d \<in> set ''dmHMS''" and "match_items (Whitespace # its) r = []"
  shows "match_items (Directive d # Whitespace # its) (pad2 n @ r) = []"
  using assms(1,2,3) match_items_separator_digit(2)[of _ "CHR ''-''"]
  by (rule match_items_two_fails) simp_all

lemma match_items_Whitespace_fails:
  "n < 100 \<Longrightarrow> match_items its (pad2 n @ r) = [] \<Longrightarrow>
     match_items (Whitespace # its) (CHR '' '' # pad2 n @ r) = []"
  by (simp only: match_items_blank)

lemma match_items_day_on_year:
  assumes "y < 10000"
  shows "match_items (Directive CHR ''d'' # Literal CHR ''-'' # its) (pad4 y @ r) = []"
proof -
  from assms obtain a b c d where d: "a < 10" "b < 10" "c < 10" "d < 10"
    "pad4 y = [digit_char a, digit_char b, digit_char c, digit_char d]" by (rule pad4_digits)
  obtain alts where a: "directive_regex CHR ''d'' = Some alts"
    and h: "set (alternatives alts (digit_char a # digit_char b # digit_char c # digit_char d # r))
              \<subseteq> {([digit_char a, digit_char b], digit_char c # digit_char d # r),
                  ([digit_char a], digit_char b # digit_char c # digit_char d # r)}"
    using alternatives_two_digits_subset[OF d(1,2), of "CHR ''d''" "digit_char c # digit_char d # r"]
    by auto
  have "match_items (Literal CHR ''-'' # its) r' = []"
    if "(m, r') \<in> set (alternatives alts (pad4 y @ r))" for m r'
    using that h d by (auto simp: digit_char_simps)
  then show ?thesis using a by auto
qed

lemma strptime_no_match:
  "pattern fmt = Some its \<Longrightarrow> match_items its s = [] \<Longrightarrow> strptime s fmt = None"
  by (simp add: strptime_def re_match_def)


text \<open>Each layout against each format that is tried before its own.\<close>

lemma days_in_month_le: "days_in_month y m \<le> 31"
  by (simp add: days_in_month_def)

lemma valid_datetime_ranges:
  assumes "valid_datetime t"
  shows "year t < 10000" "month t < 100" "day t < 100" "hour t < 100" "minute t < 100"
    "second t < 100" "1 \<le> month t" "month t \<le> 12" "1 \<le> day t" "day t \<le> 31"
    "hour t \<le> 23" "minute t \<le> 59" "second t \<le> 59"
  using assms days_in_month_le[of "year t" "month t"] by (auto simp: valid_datetime_def)

lemma strptime_found:
  "pattern fmt = Some its \<Longrightarrow> re_match its s = Some (found, []) \<Longrightarrow>
     strptime s fmt =
       datetime_new (group_or found CHR ''Y'' 1900) (group_or found CHR ''m'' 1)
         (group_or found CHR ''d'' 1) (group_or found CHR ''H'' 0)
         (group_or found CHR ''M'' 0) (group_or found CHR ''S'' 0)"
  by (simp add: strptime_def)

lemma datetime_new_valid:
  "valid_datetime t \<Longrightarrow>
     datetime_new (year t) (month t) (day t) (hour t) (minute t) (second t) = Some t"
  by (cases t) (simp add: datetime_new_def Let_def)

lemma datetime_new_valid0:
  "valid_datetime t \<Longrightarrow>
     datetime_new (year t) (month t) (day t) (hour t) (minute t) 0 = Some (t\<lparr>second := 0\<rparr>)"
  by (cases t) (simp add: datetime_new_def valid_datetime_def Let_def)

lemma group_or_simps:
  "group_or ((d, s) # found) d dflt = int_of_group s"
  "d \<noteq> e \<Longrightarrow> group_or ((e, s) # found) d dflt = group_or found d dflt"
  "group_or [] d dflt = dflt"
  by (simp_all add: group_or_def)

lemma strptime_layout1:
  assumes "valid_datetime t"
  shows "strptime (fst (layout1 t) @ '' '' @ snd (layout1 t)) ''%Y-%m-%d %H:%M:%S'' = Some t"
proof -
  note v = valid_datetime_ranges[OF assms]
  let ?found = "[(CHR ''Y'', pad4 (year t)), (CHR ''m'', pad2 (month t)),
                 (CHR ''d'', pad2 (day t)), (CHR ''H'', pad2 (hour t)),
                 (CHR ''M'', pad2 (minute t)), (CHR ''S'', pad2 (second t))]"
  have "re_match
          [Directive CHR ''Y'', Literal CHR ''-'', Directive CHR ''m'', Literal CHR ''-'',
           Directive CHR ''d'', Whitespace, Directive CHR ''H'', Literal CHR '':'',
           Directive CHR ''M'', Literal CHR '':'', Directive CHR ''S'']
          (pad4 (year t) @ CHR ''-'' # pad2 (month t) @ CHR ''-'' # pad2 (day t) @ CHR '' '' #
           pad2 (hour t) @ CHR '':'' # pad2 (minute t) @ CHR '':'' # pad2 (second t) @ [])
        = Some (?found, [])"
    by (intro re_match_year re_match_Literal re_match_two re_match_Whitespace re_match_Nil)
       (use v in simp_all)
  then have m: "re_match
          [Directive CHR ''Y'', Literal CHR ''-'', Directive CHR ''m'', Literal CHR ''-'',
           Directive CHR ''d'', Whitespace, Directive CHR ''H'', Literal CHR '':'',
           Directive CHR ''M'', Literal CHR '':'', Directive CHR ''S'']
          (fst (layout1 t) @ '' '' @ snd (layout1 t)) = Some (?found, [])"
    by (simp add: layout1_def hms_def)
  have g: "group_or ?found CHR ''Y'' 1900 = year t" "group_or ?found CHR ''m'' 1 = month t"
    "group_or ?found CHR ''d'' 1 = day t" "group_or ?found CHR ''H'' 0 = hour t"
    "group_or ?found CHR ''M'' 0 = minute t" "group_or ?found CHR ''S'' 0 = second t"
    using v by (simp_all add: group_or_simps int_of_group_pad2 int_of_group_pad4)
  show ?thesis
    unfolding strptime_found[OF pattern_candidates(1) m] g using assms
    by (rule datetime_new_valid)
qed


lemma strptime_layout2:
  assumes "valid_datetime t"
  shows "strptime (fst (layout2 t) @ '' '' @ snd (layout2 t)) ''%Y/%m/%d %H:%M:%S'' = Some t"
proof -
  note v = valid_datetime_ranges[OF assms]
  let ?found = "[(CHR ''Y'', pad4 (year t)), (CHR ''m'', pad2 (month t)), (CHR ''d'', pad2 (day t)), (CHR ''H'', pad2 (hour t)), (CHR ''M'', pad2 (minute t)), (CHR ''S'', pad2 (second t))]"
  have "re_match
          [Directive CHR ''Y'', Literal CHR ''/'', Directive CHR ''m'', Literal CHR ''/'', Directive CHR ''d'', Whitespace, Directive CHR ''H'', Literal CHR '':'', Directive CHR ''M'', Literal CHR '':'', Directive CHR ''S'']
          (pad4 (year t) @ CHR ''/'' # pad2 (month t) @ CHR ''/'' # pad2 (day t) @ CHR '' '' # pad2 (hour t) @ CHR '':'' # pad2 (minute t) @ CHR '':'' # pad2 (second t) @ [])
        = Some (?found, [])"
    by (intro re_match_year re_match_Literal re_match_two re_match_Whitespace re_match_Nil)
       (use v in simp_all)
  then have m: "re_match
          [Directive CHR ''Y'', Literal CHR ''/'', Directive CHR ''m'', Literal CHR ''/'', Directive CHR ''d'', Whitespace, Directive CHR ''H'', Literal CHR '':'', Directive CHR ''M'', Literal CHR '':'', Directive CHR ''S'']
          (fst (layout2 t) @ '' '' @ snd (layout2 t)) = Some (?found, [])"
    by (simp add: layout2_def hms_def)
  have g: "group_or ?found CHR ''Y'' 1900 = year t" "group_or ?found CHR ''m'' 1 = month t"
    "group_or ?found CHR ''d'' 1 = day t" "group_or ?found CHR ''H'' 0 = hour t"
    "group_or ?found CHR ''M'' 0 = minute t" "group_or ?found CHR ''S'' 0 = second t"
    using v by (simp_all add: group_or_simps int_of_group_pad2 int_of_group_pad4)
  show ?thesis
    unfolding strptime_found[OF pattern_candidates(2) m] g using assms
    by (rule datetime_new_valid)
qed

lemma strptime_layout3:
  assumes "valid_datetime t"
  shows "strptime (fst (layout3 t) @ '' '' @ snd (layout3 t)) ''%d-%m-%Y %H:%M:%S'' = Some t"
proof -
  note v = valid_datetime_ranges[OF assms]
  let ?found = "[(CHR ''d'', pad2 (day t)), (CHR ''m'', pad2 (month t)), (CHR ''Y'', pad4 (year t)), (CHR ''H'', pad2 (hour t)), (CHR ''M'', pad2 (minute t)), (CHR ''S'', pad2 (second t))]"
  have "re_match
          [Directive CHR ''d'', Literal CHR ''-'', Directive CHR ''m'', Literal CHR ''-'', Directive CHR ''Y'', Whitespace, Directive CHR ''H'', Literal CHR '':'', Directive CHR ''M'', Literal CHR '':'', Directive CHR ''S'']
          (pad2 (day t) @ CHR ''-'' # pad2 (month t) @ CHR ''-'' # pad4 (year t) @ CHR '' '' # pad2 (hour t) @ CHR '':'' # pad2 (minute t) @ CHR '':'' # pad2 (second t) @ [])
        = Some (?found, [])"
    by (intro re_match_year re_match_Literal re_match_two re_match_Whitespace re_match_Nil)
       (use v in simp_all)
  then have m: "re_match
          [Directive CHR ''d'', Literal CHR ''-'', Directive CHR ''m'', Literal CHR ''-'', Directive CHR ''Y'', Whitespace, Directive CHR ''H'', Literal CHR '':'', Directive CHR ''M'', Literal CHR '':'', Directive CHR ''S'']
          (fst (layout3 t) @ '' '' @ snd (layout3 t)) = Some (?found, [])"
    by (simp add: layout3_def hms_def)
  have g: "group_or ?found CHR ''Y'' 1900 = year t" "group_or ?found CHR ''m'' 1 = month t"
    "group_or ?found CHR ''d'' 1 = day t" "group_or ?found CHR ''H'' 0 = hour t"
    "group_or ?found CHR ''M'' 0 = minute t" "group_or ?found CHR ''S'' 0 = second t"
    using v by (simp_all add: group_or_simps int_of_group_pad2 int_of_group_pad4)
  show ?thesis
    unfolding strptime_found[OF pattern_candidates(3) m] g using assms
    by (rule datetime_new_valid)
qed

lemma strptime_layout4:
  assumes "valid_datetime t"
  shows "strptime (fst (layout4 t) @ '' '' @ snd (layout4 t)) ''%Y-%m-%d %H:%M'' = Some (t\<lparr>second := 0\<rparr>)"
proof -
  note v = valid_datetime_ranges[OF assms]
  let ?found = "[(CHR ''Y'', pad4 (year t)), (CHR ''m'', pad2 (month t)), (CHR ''d'', pad2 (day t)), (CHR ''H'', pad2 (hour t)), (CHR ''M'', pad2 (minute t))]"
  have "re_match
          [Directive CHR ''Y'', Literal CHR ''-'', Directive CHR ''m'', Literal CHR ''-'', Directive CHR ''d'', Whitespace, Directive CHR ''H'', Literal CHR '':'', Directive CHR ''M'']
          (pad4 (year t) @ CHR ''-'' # pad2 (month t) @ CHR ''-'' # pad2 (day t) @ CHR '' '' # pad2 (hour t) @ CHR '':'' # pad2 (minute t) @ [])
        = Some (?found, [])"
    by (intro re_match_year re_match_Literal re_match_two re_match_Whitespace re_match_Nil)
       (use v in simp_all)
  then have m: "re_match
          [Directive CHR ''Y'', Literal CHR ''-'', Directive CHR ''m'', Literal CHR ''-'', Directive CHR ''d'', Whitespace, Directive CHR ''H'', Literal CHR '':'', Directive CHR ''M'']
          (fst (layout4 t) @ '' '' @ snd (layout4 t)) = Some (?found, [])"
    by (simp add: layout4_def hms_def)
  have g: "group_or ?found CHR ''Y'' 1900 = year t" "group_or ?found CHR ''m'' 1 = month t"
    "group_or ?found CHR ''d'' 1 = day t" "group_or ?found CHR ''H'' 0 = hour t"
    "group_or ?found CHR ''M'' 0 = minute t" "group_or ?found CHR ''S'' 0 = 0"
    using v by (simp_all add: group_or_simps int_of_group_pad2 int_of_group_pad4)
  show ?thesis
    unfolding strptime_found[OF pattern_candidates(4) m] g using assms
    by (rule datetime_new_valid0)
qed

lemma layout2_not_format1:
  assumes "valid_datetime t"
  shows "strptime (fst (layout2 t) @ '' '' @ snd (layout2 t)) ''%Y-%m-%d %H:%M:%S'' = None"
proof -
  note v = valid_datetime_ranges[OF assms]
  have "match_items [Directive CHR ''Y'', Literal CHR ''-'', Directive CHR ''m'', Literal CHR ''-'', Directive CHR ''d'', Whitespace, Directive CHR ''H'', Literal CHR '':'', Directive CHR ''M'', Literal CHR '':'', Directive CHR ''S'']
          (pad4 (year t) @ CHR ''/'' # pad2 (month t) @ CHR ''/'' # pad2 (day t) @ CHR '' '' # pad2 (hour t) @ CHR '':'' # pad2 (minute t) @ CHR '':'' # pad2 (second t) @ []) = []"
    by (intro match_items_year_fails match_items_Literal_fails) (use v in simp_all)
  then show ?thesis
    by (intro strptime_no_match[OF pattern_candidates(1)]) (simp add: layout2_def hms_def)
qed

lemma layout3_not_format1:
  assumes "valid_datetime t"
  shows "strptime (fst (layout3 t) @ '' '' @ snd (layout3 t)) ''%Y-%m-%d %H:%M:%S'' = None"
proof -
  note v = valid_datetime_ranges[OF assms]
  have "match_items [Directive CHR ''Y'', Literal CHR ''-'', Directive CHR ''m'', Literal CHR ''-'', Directive CHR ''d'', Whitespace, Directive CHR ''H'', Literal CHR '':'', Directive CHR ''M'', Literal CHR '':'', Directive CHR ''S'']
          (pad2 (day t) @ CHR ''-'' # pad2 (month t) @ CHR ''-'' # pad4 (year t) @ CHR '' '' # pad2 (hour t) @ CHR '':'' # pad2 (minute t) @ CHR '':'' # pad2 (second t) @ []) = []"
    by (intro match_items_year_short) (use v in simp_all)
  then show ?thesis
    by (intro strptime_no_match[OF pattern_candidates(1)]) (simp add: layout3_def hms_def)
qed

lemma layout3_not_format2:
  assumes "valid_datetime t"
  shows "strptime (fst (layout3 t) @ '' '' @ snd (layout3 t)) ''%Y/%m/%d %H:%M:%S'' = None"
proof -
  note v = valid_datetime_ranges[OF assms]
  have "match_items [Directive CHR ''Y'', Literal CHR ''/'', Directive CHR ''m'', Literal CHR ''/'', Directive CHR ''d'', Whitespace, Directive CHR ''H'', Literal CHR '':'', Directive CHR ''M'', Literal CHR '':'', Directive CHR ''S'']
          (pad2 (day t) @ CHR ''-'' # pad2 (month t) @ CHR ''-'' # pad4 (year t) @ CHR '' '' # pad2 (hour t) @ CHR '':'' # pad2 (minute t) @ CHR '':'' # pad2 (second t) @ []) = []"
    by (intro match_items_year_short) (use v in simp_all)
  then show ?thesis
    by (intro strptime_no_match[OF pattern_candidates(2)]) (simp add: layout3_def hms_def)
qed

lemma layout4_not_format1:
  assumes "valid_datetime t"
  shows "strptime (fst (layout4 t) @ '' '' @ snd (layout4 t)) ''%Y-%m-%d %H:%M:%S'' = None"
proof -
  note v = valid_datetime_ranges[OF assms]
  have "match_items [Directive CHR ''Y'', Literal CHR ''-'', Directive CHR ''m'', Literal CHR ''-'', Directive CHR ''d'', Whitespace, Directive CHR ''H'', Literal CHR '':'', Directive CHR ''M'', Literal CHR '':'', Directive CHR ''S'']
          (pad4 (year t) @ CHR ''-'' # pad2 (month t) @ CHR ''-'' # pad2 (day t) @ CHR '' '' # pad2 (hour t) @ CHR '':'' # pad2 (minute t) @ []) = []"
    by (intro match_items_year_fails match_items_Literal_eq match_items_two_Literal_fails
          match_items_two_Whitespace_fails match_items_Whitespace_fails)
       (use v in simp_all)
  then show ?thesis
    by (intro strptime_no_match[OF pattern_candidates(1)]) (simp add: layout4_def)
qed

lemma layout4_not_format2:
  assumes "valid_datetime t"
  shows "strptime (fst (layout4 t) @ '' '' @ snd (layout4 t)) ''%Y/%m/%d %H:%M:%S'' = None"
proof -
  note v = valid_datetime_ranges[OF assms]
  have "match_items [Directive CHR ''Y'', Literal CHR ''/'', Directive CHR ''m'', Literal CHR ''/'', Directive CHR ''d'', Whitespace, Directive CHR ''H'', Literal CHR '':'', Directive CHR ''M'', Literal CHR '':'', Directive CHR ''S'']
          (pad4 (year t) @ CHR ''-'' # pad2 (month t) @ CHR ''-'' # pad2 (day t) @ CHR '' '' # pad2 (hour t) @ CHR '':'' # pad2 (minute t) @ []) = []"
    by (intro match_items_year_fails match_items_Literal_fails) (use v in simp_all)
  then show ?thesis
    by (intro strptime_no_match[OF pattern_candidates(2)]) (simp add: layout4_def)
qed

lemma layout4_not_format3:
  assumes "valid_datetime t"
  shows "strptime (fst (layout4 t) @ '' '' @ snd (layout4 t)) ''%d-%m-%Y %H:%M:%S'' = None"
proof -
  note v = valid_datetime_ranges[OF assms]
  have "match_items [Directive CHR ''d'', Literal CHR ''-'', Directive CHR ''m'', Literal CHR ''-'', Directive CHR ''Y'', Whitespace, Directive CHR ''H'', Literal CHR '':'', Directive CHR ''M'', Literal CHR '':'', Directive CHR ''S'']
          (pad4 (year t) @ CHR ''-'' # pad2 (month t) @ CHR ''-'' # pad2 (day t) @ CHR '' '' # pad2 (hour t) @ CHR '':'' # pad2 (minute t) @ []) = []"
    by (intro match_items_day_on_year) (use v in simp_all)
  then show ?thesis
    by (intro strptime_no_match[OF pattern_candidates(3)]) (simp add: layout4_def)
qed

text \<open>
  Claim C6 says that an instant written in each of the four layouts parses to the same
  instant. The fourth layout has no seconds: the instant 2008-10-23 02:53:04 written in
  it parses to 02:53:00, which is not what the first layout gives.
\<close>

theorem layout4_counterexample:
  "valid_datetime \<lparr>year = 2008, month = 10, day = 23, hour = 2, minute = 53, second = 4\<rparr> \<and>
   layout4 \<lparr>year = 2008, month = 10, day = 23, hour = 2, minute = 53, second = 4\<rparr>
     = (''2008-10-23'', ''02:53'') \<and>
   parse_layout (layout1 \<lparr>year = 2008, month = 10, day = 23, hour = 2, minute = 53, second = 4\<rparr>)
     = Inr \<lparr>year = 2008, month = 10, day = 23, hour = 2, minute = 53, second = 4\<rparr> \<and>
   parse_layout (layout4 \<lparr>year = 2008, month = 10, day = 23, hour = 2, minute = 53, second = 4\<rparr>)
     = Inr \<lparr>year = 2008, month = 10, day = 23, hour = 2, minute = 53, second = 0\<rparr> \<and>
   parse_layout (layout4 \<lparr>year = 2008, month = 10, day = 23, hour = 2, minute = 53, second = 4\<rparr>)
     \<noteq> parse_layout
         (layout1 \<lparr>year = 2008, month = 10, day = 23, hour = 2, minute = 53, second = 4\<rparr>)"
  by code_simp

text \<open>
  Claim C6, amended. For every instant that \<^verbatim>\<open>datetime\<close> can hold, written with every field
  at its full width: the three layouts with seconds parse to that instant, and the layout
  without seconds parses to the instant with its seconds set to 0; so the four layouts
  give the same instant exactly when the seconds are 0.
\<close>

theorem layouts_agree:
  assumes "valid_datetime t"
  shows "parse_layout (layout1 t) = Inr t \<and>
         parse_layout (layout2 t) = Inr t \<and>
         parse_layout (layout3 t) = Inr t \<and>
         parse_layout (layout4 t) = Inr (t\<lparr>second := 0\<rparr>) \<and>
         (second t = 0 \<longrightarrow> parse_layout (layout4 t) = Inr t)"
proof -
  have l1: "parse_layout (layout1 t) = Inr t"
    using strptime_layout1[OF assms]
    by (simp add: parse_layout_def try_parse_datetime_unfold Let_def)
  have l2: "parse_layout (layout2 t) = Inr t"
    using layout2_not_format1[OF assms] strptime_layout2[OF assms]
    by (simp add: parse_layout_def try_parse_datetime_unfold Let_def)
  have l3: "parse_layout (layout3 t) = Inr t"
    using layout3_not_format1[OF assms] layout3_not_format2[OF assms] strptime_layout3[OF assms]
    by (simp add: parse_layout_def try_parse_datetime_unfold Let_def)
  have l4: "parse_layout (layout4 t) = Inr (t\<lparr>second := 0\<rparr>)"
    using layout4_not_format1[OF assms] layout4_not_format2[OF assms]
      layout4_not_format3[OF assms] strptime_layout4[OF assms]
    by (simp add: parse_layout_def try_parse_datetime_unfold Let_def)
  show ?thesis using l1 l2 l3 l4 by simp
qed

theorem layouts_agree_witness:
  "valid_datetime \<lparr>year = 2008, month = 10, day = 23, hour = 2, minute = 53, second = 0\<rparr> \<and>
   parse_layout (layout1 \<lparr>year = 2008, month = 10, day = 23, hour = 2, minute = 53, second = 0\<rparr>)
     = Inr \<lparr>year = 2008, month = 10, day = 23, hour = 2, minute = 53, second = 0\<rparr> \<and>
   parse_layout (layout3 \<lparr>year = 2008, month = 10, day = 23, hour = 2, minute = 53, second = 0\<rparr>)
     = Inr \<lparr>year = 2008, month = 10, day = 23, hour = 2, minute = 53, second = 0\<rparr> \<and>
   parse_layout (layout4 \<lparr>year = 2008, month = 10, day = 23, hour = 2, minute = 53, second = 0\<rparr>)
     = Inr \<lparr>year = 2008, month = 10, day = 23, hour = 2, minute = 53, second = 0\<rparr>"
proof -
  have v: "valid_datetime
             \<lparr>year = 2008, month = 10, day = 23, hour = 2, minute = 53, second = 0\<rparr>"
    by (simp add: valid_datetime_def days_in_month_def)
  show ?thesis using layouts_agree[OF v] v by simp
qed

subsection \<open>The order in which the layouts are tried\<close>

text \<open>
  Claim C2. The text parsed is the date, one blank and the time. The four layouts are
  tried in the order of \<open>candidates\<close>, and the first that \<^verbatim>\<open>strptime\<close> accepts gives the
  result; \<^verbatim>\<open>strptime\<close> accepts a text only when the layout matches all of it, and the
  layout without seconds gives second 0. A valid instant written in one of the layouts
  is accepted by the format of that layout and by none tried before it, and parses to
  that instant (with second 0 from the layout that has no seconds). When no layout is
  accepted the line yields no point record, and once its three numbers have parsed it is
  skipped with the error that names the text.
\<close>

theorem timestamp_layouts:
  "candidates = [''%Y-%m-%d %H:%M:%S'', ''%Y/%m/%d %H:%M:%S'', ''%d-%m-%Y %H:%M:%S'',
                 ''%Y-%m-%d %H:%M''] \<and>
   try_parse_datetime date_str time_str =
     (let ts = date_str @ '' '' @ time_str in
      case strptime ts ''%Y-%m-%d %H:%M:%S'' of Some t \<Rightarrow> Inr t | None \<Rightarrow>
      case strptime ts ''%Y/%m/%d %H:%M:%S'' of Some t \<Rightarrow> Inr t | None \<Rightarrow>
      case strptime ts ''%d-%m-%Y %H:%M:%S'' of Some t \<Rightarrow> Inr t | None \<Rightarrow>
      case strptime ts ''%Y-%m-%d %H:%M'' of Some t \<Rightarrow> Inr t | None \<Rightarrow>
        Inl (ValueError (UnknownDatetimeFormat ts))) \<and>
   (\<forall>fmt t. strptime txt fmt = Some t \<longrightarrow>
      (\<exists>its found. pattern fmt = Some its \<and> re_match its txt = Some (found, []))) \<and>
   (\<forall>t. strptime txt ''%Y-%m-%d %H:%M'' = Some t \<longrightarrow> second t = 0) \<and>
   (valid_datetime t \<longrightarrow>
      strptime (fst (layout1 t) @ '' '' @ snd (layout1 t)) ''%Y-%m-%d %H:%M:%S'' = Some t \<and>
      try_parse_datetime (fst (layout1 t)) (snd (layout1 t)) = Inr t \<and>
      strptime (fst (layout2 t) @ '' '' @ snd (layout2 t)) ''%Y-%m-%d %H:%M:%S'' = None \<and>
      strptime (fst (layout2 t) @ '' '' @ snd (layout2 t)) ''%Y/%m/%d %H:%M:%S'' = Some t \<and>
      try_parse_datetime (fst (layout2 t)) (snd (layout2 t)) = Inr t \<and>
      strptime (fst (layout3 t) @ '' '' @ snd (layout3 t)) ''%Y-%m-%d %H:%M:%S'' = None \<and>
      strptime (fst (layout3 t) @ '' '' @ snd (layout3 t)) ''%Y/%m/%d %H:%M:%S'' = None \<and>
      strptime (fst (layout3 t) @ '' '' @ snd (layout3 t)) ''%d-%m-%Y %H:%M:%S'' = Some t \<and>
      try_parse_datetime (fst (layout3 t)) (snd (layout3 t)) = Inr t \<and>
      strptime (fst (layout4 t) @ '' '' @ snd (layout4 t)) ''%Y-%m-%d %H:%M:%S'' = None \<and>
      strptime (fst (layout4 t) @ '' '' @ snd (layout4 t)) ''%Y/%m/%d %H:%M:%S'' = None \<and>
      strptime (fst (layout4 t) @ '' '' @ snd (layout4 t)) ''%d-%m-%Y %H:%M:%S'' = None \<and>
      strptime (fst (layout4 t) @ '' '' @ snd (layout4 t)) ''%Y-%m-%d %H:%M''
        = Some (t\<lparr>second := 0\<rparr>) \<and>
      try_parse_datetime (fst (layout4 t)) (snd (layout4 t)) = Inr (t\<lparr>second := 0\<rparr>)) \<and>
   (strip line \<noteq> [] \<and> 6 \<le> length (split_fields (strip line)) \<and>
    (\<forall>fmt\<in>set candidates.
       strptime (split_fields (strip line) ! (length (split_fields (strip line)) - 2) @ '' '' @
                 split_fields (strip line) ! (length (split_fields (strip line)) - 1)) fmt
         = None) \<longrightarrow>
      (\<forall>p. parse_line flt uid line \<noteq> Inr (PointRecord p)) \<and>
      (\<forall>a b c. float_at flt (split_fields (strip line)) 0 = Inr a \<and>
               float_at flt (split_fields (strip line)) 1 = Inr b \<and>
               altitude_of flt (split_fields (strip line)) = Inr c \<longrightarrow>
         parse_line flt uid line =
           Inr (SkipValueError (strip line)
                  (UnknownDatetimeFormat
                     (split_fields (strip line) ! (length (split_fields (strip line)) - 2) @ '' '' @
                      split_fields (strip line) ! (length (split_fields (strip line)) - 1))))))"
proof (intro conjI allI impI)
  show "candidates = [''%Y-%m-%d %H:%M:%S'', ''%Y/%m/%d %H:%M:%S'', ''%d-%m-%Y %H:%M:%S'',
                 ''%Y-%m-%d %H:%M'']"
    by (simp add: candidates_def)
  show "try_parse_datetime date_str time_str =
     (let ts = date_str @ '' '' @ time_str in
      case strptime ts ''%Y-%m-%d %H:%M:%S'' of Some t \<Rightarrow> Inr t | None \<Rightarrow>
      case strptime ts ''%Y/%m/%d %H:%M:%S'' of Some t \<Rightarrow> Inr t | None \<Rightarrow>
      case strptime ts ''%d-%m-%Y %H:%M:%S'' of Some t \<Rightarrow> Inr t | None \<Rightarrow>
      case strptime ts ''%Y-%m-%d %H:%M'' of Some t \<Rightarrow> Inr t | None \<Rightarrow>
        Inl (ValueError (UnknownDatetimeFormat ts)))"
    by (rule try_parse_datetime_unfold)
  show "\<exists>its found. pattern fmt = Some its \<and> re_match its txt = Some (found, [])"
    if "strptime txt fmt = Some t" for fmt t
    using that by (rule strptime_full_match)
  show "second t = 0" if "strptime txt ''%Y-%m-%d %H:%M'' = Some t" for t
    using that by (rule strptime_no_seconds)
next
  assume v: "valid_datetime t"
  show a1: "strptime (fst (layout1 t) @ '' '' @ snd (layout1 t)) ''%Y-%m-%d %H:%M:%S'' = Some t"
    using v by (rule strptime_layout1)
  show "try_parse_datetime (fst (layout1 t)) (snd (layout1 t)) = Inr t"
    using a1 by (simp add: try_parse_datetime_unfold Let_def)
  show n21: "strptime (fst (layout2 t) @ '' '' @ snd (layout2 t)) ''%Y-%m-%d %H:%M:%S'' = None"
    using v by (rule layout2_not_format1)
  show a2: "strptime (fst (layout2 t) @ '' '' @ snd (layout2 t)) ''%Y/%m/%d %H:%M:%S'' = Some t"
    using v by (rule strptime_layout2)
  show "try_parse_datetime (fst (layout2 t)) (snd (layout2 t)) = Inr t"
    using n21 a2 by (simp add: try_parse_datetime_unfold Let_def)
  show n31: "strptime (fst (layout3 t) @ '' '' @ snd (layout3 t)) ''%Y-%m-%d %H:%M:%S'' = None"
    using v by (rule layout3_not_format1)
  show n32: "strptime (fst (layout3 t) @ '' '' @ snd (layout3 t)) ''%Y/%m/%d %H:%M:%S'' = None"
    using v by (rule layout3_not_format2)
  show a3: "strptime (fst (layout3 t) @ '' '' @ snd (layout3 t)) ''%d-%m-%Y %H:%M:%S'' = Some t"
    using v by (rule strptime_layout3)
  show "try_parse_datetime (fst (layout3 t)) (snd (layout3 t)) = Inr t"
    using n31 n32 a3 by (simp add: try_parse_datetime_unfold Let_def)
  show n41: "strptime (fst (layout4 t) @ '' '' @ snd (layout4 t)) ''%Y-%m-%d %H:%M:%S'' = None"
    using v by (rule layout4_not_format1)
  show n42: "strptime (fst (layout4 t) @ '' '' @ snd (layout4 t)) ''%Y/%m/%d %H:%M:%S'' = None"
    using v by (rule layout4_not_format2)
  show n43: "strptime (fst (layout4 t) @ '' '' @ snd (layout4 t)) ''%d-%m-%Y %H:%M:%S'' = None"
    using v by (rule layout4_not_format3)
  show a4: "strptime (fst (layout4 t) @ '' '' @ snd (layout4 t)) ''%Y-%m-%d %H:%M''
      = Some (t\<lparr>second := 0\<rparr>)"
    using v by (rule strptime_layout4)
  show "try_parse_datetime (fst (layout4 t)) (snd (layout4 t)) = Inr (t\<lparr>second := 0\<rparr>)"
    using n41 n42 n43 a4 by (simp add: try_parse_datetime_unfold Let_def)
next
  let ?ps = "split_fields (strip line)"
  let ?ts = "?ps ! (length ?ps - 2) @ '' '' @ ?ps ! (length ?ps - 1)"
  assume h: "strip line \<noteq> [] \<and> 6 \<le> length ?ps \<and>
    (\<forall>fmt\<in>set candidates. strptime ?ts fmt = None)"
  then have none: "try_formats ?ts candidates = None"
    by (intro try_formats_None) simp
  have len: "6 \<le> length ?ps" using h by simp
  show "parse_line flt uid line \<noteq> Inr (PointRecord p)" for p
    using h extract_point_bad_timestamp(1)[OF len none, of flt uid]
    by (auto simp: parse_line_def Let_def split: sum.splits exn.splits)
  show "parse_line flt uid line = Inr (SkipValueError (strip line) (UnknownDatetimeFormat ?ts))"
    if "float_at flt ?ps 0 = Inr a \<and> float_at flt ?ps 1 = Inr b \<and> altitude_of flt ?ps = Inr c"
    for a b c
    using h that extract_point_bad_timestamp(2)[OF len none, of flt a b c uid]
    by (simp add: parse_line_def Let_def)
qed

theorem timestamp_layouts_witness:
  "valid_datetime \<lparr>year = 2008, month = 10, day = 23, hour = 2, minute = 53, second = 4\<rparr> \<and>
   try_parse_datetime ''2008-10-23'' ''02:53:04''
     = Inr \<lparr>year = 2008, month = 10, day = 23, hour = 2, minute = 53, second = 4\<rparr> \<and>
   try_parse_datetime ''2008/10/23'' ''02:53:04''
     = Inr \<lparr>year = 2008, month = 10, day = 23, hour = 2, minute = 53, second = 4\<rparr> \<and>
   try_parse_datetime ''23-10-2008'' ''02:53:04''
     = Inr \<lparr>year = 2008, month = 10, day = 23, hour = 2, minute = 53, second = 4\<rparr> \<and>
   try_parse_datetime ''2008-10-23'' ''02:53''
     = Inr \<lparr>year = 2008, month = 10, day = 23, hour = 2, minute = 53, second = 0\<rparr> \<and>
   strptime ''2008-10-23 02:53'' ''%Y-%m-%d %H:%M''
     = Some \<lparr>year = 2008, month = 10, day = 23, hour = 2, minute = 53, second = 0\<rparr> \<and>
   strptime ''2008-13-23 02:53:04'' ''%Y-%m-%d %H:%M:%S'' = None \<and>
   strptime ''2008-13-23 02:53:04'' ''%Y/%m/%d %H:%M:%S'' = None \<and>
   strptime ''2008-13-23 02:53:04'' ''%d-%m-%Y %H:%M:%S'' = None \<and>
   strptime ''2008-13-23 02:53:04'' ''%Y-%m-%d %H:%M'' = None \<and>
   parse_line float_literal ''000'' ''39.9,116.3,0,492,39744.1,2008-13-23,02:53:04''
     = Inr (SkipValueError ''39.9,116.3,0,492,39744.1,2008-13-23,02:53:04''
              (UnknownDatetimeFormat ''2008-13-23 02:53:04''))"
proof -
  let ?t = "\<lparr>year = 2008, month = 10, day = 23, hour = 2, minute = 53, second = 4\<rparr>"
  let ?l = "''39.9,116.3,0,492,39744.1,2008-13-23,02:53:04''"
  have v: "valid_datetime ?t" by (simp add: valid_datetime_def days_in_month_def)
  have l1: "layout1 ?t = (''2008-10-23'', ''02:53:04'')" by code_simp
  have l2: "layout2 ?t = (''2008/10/23'', ''02:53:04'')" by code_simp
  have l3: "layout3 ?t = (''23-10-2008'', ''02:53:04'')" by code_simp
  have l4: "layout4 ?t = (''2008-10-23'', ''02:53'')" by code_simp
  have s: "strip ?l = ?l" by code_simp
  have f: "split_fields ?l
             = [''39.9'', ''116.3'', ''0'', ''492'', ''39744.1'', ''2008-13-23'', ''02:53:04'']"
    by code_simp
  have n1: "strptime ''2008-13-23 02:53:04'' ''%Y-%m-%d %H:%M:%S'' = None" by code_simp
  have n2: "strptime ''2008-13-23 02:53:04'' ''%Y/%m/%d %H:%M:%S'' = None" by code_simp
  have n3: "strptime ''2008-13-23 02:53:04'' ''%d-%m-%Y %H:%M:%S'' = None" by code_simp
  have n4: "strptime ''2008-13-23 02:53:04'' ''%Y-%m-%d %H:%M'' = None" by code_simp
  have a: "float_at float_literal
             [''39.9'', ''116.3'', ''0'', ''492'', ''39744.1'', ''2008-13-23'', ''02:53:04''] 0
             = Inr (Decimal 399 (- 1))"
    by code_simp
  have b: "float_at float_literal
             [''39.9'', ''116.3'', ''0'', ''492'', ''39744.1'', ''2008-13-23'', ''02:53:04''] 1
             = Inr (Decimal 1163 (- 1))"
    by code_simp
  have c: "altitude_of float_literal
             [''39.9'', ''116.3'', ''0'', ''492'', ''39744.1'', ''2008-13-23'', ''02:53:04'']
             = Inr (Decimal 492 0)"
    by code_simp
  show ?thesis
    using timestamp_layouts[of "''2008-10-23''" "''02:53''" "''2008-10-23 02:53''" ?t ?l
        float_literal "''000''"] v
    by (simp add: l1 l2 l3 l4 s f n1 n2 n3 n4 a b c candidates_def)
qed

subsection \<open>The file written\<close>

text \<open>Sorting by the secondary key and then, stably, by the primary key sorts by the
  pair; neither sort moves records with equal keys past each other.\<close>

lemma insort_key_lex:
  fixes f :: "'a \<Rightarrow> 'k::linorder" and g :: "'a \<Rightarrow> 'j::linorder"
  assumes "sorted (map (\<lambda>y. (f y, g y)) ys)" and "\<forall>y\<in>set ys. g x \<le> g y"
  shows "sorted (map (\<lambda>y. (f y, g y)) (insort_key f x ys))"
  using assms
proof (induction ys)
  case Nil
  then show ?case by simp
next
  case (Cons y ys)
  show ?case
  proof (cases "f x \<le> f y")
    case True
    have "(f x, g x) \<le> (f z, g z)" if "z \<in> set (y # ys)" for z
    proof -
      have "(f y, g y) \<le> (f z, g z)" using Cons.prems(1) that by auto
      then have "f y \<le> f z" by auto
      then have "f x \<le> f z" using True by simp
      moreover have "g x \<le> g z" using Cons.prems(2) that by auto
      ultimately show ?thesis by auto
    qed
    then show ?thesis using True Cons.prems(1) by auto
  next
    case False
    then have "(f y, g y) \<le> (f x, g x)" by auto
    moreover have "sorted (map (\<lambda>y. (f y, g y)) (insort_key f x ys))"
      using Cons by simp
    ultimately show ?thesis using False Cons.prems(1) by (auto simp: set_insort_key)
  qed
qed

lemma sort_key_lex:
  fixes f :: "'a \<Rightarrow> 'k::linorder" and g :: "'a \<Rightarrow> 'j::linorder"
  assumes "sorted (map g xs)"
  shows "sorted (map (\<lambda>y. (f y, g y)) (sort_key f xs))"
  using assms
proof (induction xs)
  case Nil
  then show ?case by simp
next
  case (Cons x xs)
  then have "sorted (map (\<lambda>y. (f y, g y)) (sort_key f xs))" and "\<forall>y\<in>set (sort_key f xs). g x \<le> g y"
    by auto
  then show ?case by (simp add: insort_key_lex)
qed

lemma lexsort_sorted:
  "sorted (map (\<lambda>y. (primary y, secondary y)) (lexsort secondary primary rows))"
  unfolding lexsort_def by (rule sort_key_lex) simp

lemma lexsort_mset: "mset (lexsort secondary primary rows) = mset rows"
  by (simp add: lexsort_def)

lemma lexsort_stable:
  "filter (\<lambda>y. (primary y, secondary y) = (a, b)) (lexsort secondary primary rows)
     = filter (\<lambda>y. (primary y, secondary y) = (a, b)) rows"
proof -
  have "filter (\<lambda>y. (primary y, secondary y) = (a, b)) (lexsort secondary primary rows)
      = filter (\<lambda>y. secondary y = b)
          (filter (\<lambda>y. primary y = a) (sort_key primary (sort_key secondary rows)))"
    by (simp add: lexsort_def conj_commute)
  also have "\<dots> = filter (\<lambda>y. secondary y = b) (filter (\<lambda>y. primary y = a) (sort_key secondary rows))"
    by (simp only: sort_key_stable)
  also have "\<dots> = filter (\<lambda>y. primary y = a) (filter (\<lambda>y. secondary y = b) (sort_key secondary rows))"
    by (simp add: conj_commute)
  also have "\<dots> = filter (\<lambda>y. primary y = a) (filter (\<lambda>y. secondary y = b) rows)"
    by (simp only: sort_key_stable)
  also have "\<dots> = filter (\<lambda>y. (primary y, secondary y) = (a, b)) rows"
    by (simp add: conj_commute)
  finally show ?thesis .
qed

lemma sort_values_sorted: "sorted (map row_key (sort_values rows))"
proof -
  have "map row_key (sort_values rows)
      = map (\<lambda>p. (user_id p, ts_key (timestamp p))) (sort_values rows)"
    by (simp add: row_key_def)
  then show ?thesis
    unfolding sort_values_def by (simp only: lexsort_sorted)
qed

lemma sort_values_mset: "mset (sort_values rows) = mset rows"
  by (simp add: sort_values_def lexsort_mset)

lemma sort_values_stable:
  "filter (\<lambda>p. row_key p = k) (sort_values rows) = filter (\<lambda>p. row_key p = k) rows"
  using lexsort_stable[of user_id "\<lambda>p. ts_key (timestamp p)" "fst k" "snd k" rows]
  by (simp add: sort_values_def row_key_def)


lemma row_key_user_id: "row_key p \<le> row_key q \<Longrightarrow> user_id p \<le> user_id q"
  by (auto simp: row_key_def)

lemma row_key_timestamp:
  "row_key p \<le> row_key q \<Longrightarrow> user_id p = user_id q \<Longrightarrow>
     ts_key (timestamp p) \<le> ts_key (timestamp q)"
  by (auto simp: row_key_def)

lemma sorted_rows_user_id:
  assumes "sorted (map row_key rows)"
  shows "sorted (map user_id rows)"
proof -
  have "sorted_wrt (\<lambda>p q. row_key p \<le> row_key q) rows"
    using assms by (simp add: sorted_map)
  then have "sorted_wrt (\<lambda>p q. user_id p \<le> user_id q) rows"
    by (rule sorted_wrt_mono_rel[rotated]) (simp add: row_key_user_id)
  then show ?thesis by (simp add: sorted_map)
qed

lemma sorted_rows_timestamp:
  assumes "sorted (map row_key rows)" and "i < j" and "j < length rows"
    and "user_id (rows ! i) = user_id (rows ! j)"
  shows "ts_key (timestamp (rows ! i)) \<le> ts_key (timestamp (rows ! j))"
proof -
  have "map row_key rows ! i \<le> map row_key rows ! j"
    using assms(1-3) by (intro sorted_nth_mono) simp_all
  then have "row_key (rows ! i) \<le> row_key (rows ! j)"
    using assms(2,3) by simp
  then show ?thesis using assms(4) by (rule row_key_timestamp)
qed

text \<open>
  Claim C4. When \<^verbatim>\<open>all_data\<close> is not empty, the file written is the header line followed
  by one line for each record collected, the records being those of \<^verbatim>\<open>all_data\<close> in
  ascending order of owner and, for one owner, of timestamp.
\<close>

theorem output_sorted:
  assumes "collect_all flt base verbose limit \<noteq> []"
  shows "\<exists>rows.
           process_geolife_dataset flt base verbose limit =
             Some (Header [''user_id'', ''latitude'', ''longitude'', ''altitude'', ''timestamp''] #
                   map (\<lambda>p. Row (user_id p) (latitude p) (longitude p) (altitude p) (timestamp p))
                       rows) \<and>
           mset rows = mset (collect_all flt base verbose limit) \<and>
           length rows = length (collect_all flt base verbose limit) \<and>
           sorted (map row_key rows) \<and>
           sorted (map user_id rows) \<and>
           (\<forall>i j. i < j \<and> j < length rows \<and> user_id (rows ! i) = user_id (rows ! j) \<longrightarrow>
                  ts_key (timestamp (rows ! i)) \<le> ts_key (timestamp (rows ! j)))"
proof -
  let ?all = "collect_all flt base verbose limit"
  have m: "mset (sort_values ?all) = mset ?all" by (rule sort_values_mset)
  have s: "sorted (map row_key (sort_values ?all))" by (rule sort_values_sorted)
  have l: "length (sort_values ?all) = length ?all"
    using m by (rule mset_eq_length)
  have out: "process_geolife_dataset flt base verbose limit = Some (to_csv (sort_values ?all))"
    using assms by (simp add: process_geolife_dataset_def)
  show ?thesis
    using out m l s sorted_rows_user_id[OF s] sorted_rows_timestamp[OF s]
    by (intro exI[of _ "sort_values ?all"]) (simp add: to_csv_def)
qed

theorem output_sorted_witness:
  "collect_all float_literal sample_base False None \<noteq> [] \<and>
   process_geolife_dataset float_literal sample_base False None =
     Some [Header [''user_id'', ''latitude'', ''longitude'', ''altitude'', ''timestamp''],
           Row ''000'' (Decimal 400 (- 1)) (Decimal 1163 (- 1)) (Decimal 492 0)
             \<lparr>year = 2008, month = 10, day = 25, hour = 2, minute = 53, second = 4\<rparr>,
           Row ''001'' (Decimal 398 (- 1)) (Decimal 1163 (- 1)) (Decimal 492 0)
             \<lparr>year = 2008, month = 10, day = 23, hour = 2, minute = 53, second = 4\<rparr>,
           Row ''001'' (Decimal 399 (- 1)) (Decimal 1163 (- 1)) (Decimal 492 0)
             \<lparr>year = 2008, month = 10, day = 24, hour = 2, minute = 53, second = 4\<rparr>]"
proof -
  have ne: "collect_all float_literal sample_base False None \<noteq> []"
    by code_simp
  have ev: "process_geolife_dataset float_literal sample_base False None =
     Some [Header [''user_id'', ''latitude'', ''longitude'', ''altitude'', ''timestamp''],
           Row ''000'' (Decimal 400 (- 1)) (Decimal 1163 (- 1)) (Decimal 492 0)
             \<lparr>year = 2008, month = 10, day = 25, hour = 2, minute = 53, second = 4\<rparr>,
           Row ''001'' (Decimal 398 (- 1)) (Decimal 1163 (- 1)) (Decimal 492 0)
             \<lparr>year = 2008, month = 10, day = 23, hour = 2, minute = 53, second = 4\<rparr>,
           Row ''001'' (Decimal 399 (- 1)) (Decimal 1163 (- 1)) (Decimal 492 0)
             \<lparr>year = 2008, month = 10, day = 24, hour = 2, minute = 53, second = 4\<rparr>]"
    by code_simp
  show ?thesis
    using output_sorted[OF ne] ev ne by simp
qed

text \<open>
  Claim C5. The records of the file written that have one owner and one timestamp stand
  in the order in which the traversal collected them.
\<close>

theorem output_stable:
  assumes "collect_all flt base verbose limit \<noteq> []"
  shows "\<exists>rows.
           process_geolife_dataset flt base verbose limit =
             Some (Header [''user_id'', ''latitude'', ''longitude'', ''altitude'', ''timestamp''] #
                   map (\<lambda>p. Row (user_id p) (latitude p) (longitude p) (altitude p) (timestamp p))
                       rows) \<and>
           (\<forall>u t. filter (\<lambda>p. user_id p = u \<and> timestamp p = t) rows
                  = filter (\<lambda>p. user_id p = u \<and> timestamp p = t)
                      (collect_all flt base verbose limit))"
proof -
  let ?all = "collect_all flt base verbose limit"
  have out: "process_geolife_dataset flt base verbose limit = Some (to_csv (sort_values ?all))"
    using assms by (simp add: process_geolife_dataset_def)
  have st: "filter (\<lambda>p. user_id p = u \<and> timestamp p = t) (sort_values ?all)
          = filter (\<lambda>p. user_id p = u \<and> timestamp p = t) ?all" for u t
  proof -
    have "filter (\<lambda>p. timestamp p = t) (filter (\<lambda>p. row_key p = (u, ts_key t)) (sort_values ?all))
        = filter (\<lambda>p. timestamp p = t) (filter (\<lambda>p. row_key p = (u, ts_key t)) ?all)"
      by (simp only: sort_values_stable)
    moreover have "(row_key p = (u, ts_key t) \<and> timestamp p = t) = (user_id p = u \<and> timestamp p = t)"
      for p :: "'a point"
      by (auto simp: row_key_def)
    ultimately show ?thesis by (simp add: conj_commute)
  qed
  show ?thesis
    using out st by (intro exI[of _ "sort_values ?all"]) (simp add: to_csv_def)
qed

theorem output_stable_witness:
  "collect_all float_literal sample_ties False None \<noteq> [] \<and>
   map latitude (collect_all float_literal sample_ties False None)
     = [Decimal 10 (- 1), Decimal 20 (- 1), Decimal 30 (- 1)] \<and>
   process_geolife_dataset float_literal sample_ties False None =
     Some [Header [''user_id'', ''latitude'', ''longitude'', ''altitude'', ''timestamp''],
           Row ''000'' (Decimal 20 (- 1)) (Decimal 1163 (- 1)) (Decimal 492 0)
             \<lparr>year = 2008, month = 10, day = 23, hour = 2, minute = 53, second = 4\<rparr>,
           Row ''000'' (Decimal 10 (- 1)) (Decimal 1163 (- 1)) (Decimal 492 0)
             \<lparr>year = 2008, month = 10, day = 24, hour = 2, minute = 53, second = 4\<rparr>,
           Row ''000'' (Decimal 30 (- 1)) (Decimal 1163 (- 1)) (Decimal 492 0)
             \<lparr>year = 2008, month = 10, day = 24, hour = 2, minute = 53, second = 4\<rparr>]"
proof -
  have ne: "collect_all float_literal sample_ties False None \<noteq> []"
    by code_simp
  have lat: "map latitude (collect_all float_literal sample_ties False None)
     = [Decimal 10 (- 1), Decimal 20 (- 1), Decimal 30 (- 1)]"
    by code_simp
  have ev: "process_geolife_dataset float_literal sample_ties False None =
     Some [Header [''user_id'', ''latitude'', ''longitude'', ''altitude'', ''timestamp''],
           Row ''000'' (Decimal 20 (- 1)) (Decimal 1163 (- 1)) (Decimal 492 0)
             \<lparr>year = 2008, month = 10, day = 23, hour = 2, minute = 53, second = 4\<rparr>,
           Row ''000'' (Decimal 10 (- 1)) (Decimal 1163 (- 1)) (Decimal 492 0)
             \<lparr>year = 2008, month = 10, day = 24, hour = 2, minute = 53, second = 4\<rparr>,
           Row ''000'' (Decimal 30 (- 1)) (Decimal 1163 (- 1)) (Decimal 492 0)
             \<lparr>year = 2008, month = 10, day = 24, hour = 2, minute = 53, second = 4\<rparr>]"
    by code_simp
  show ?thesis
    using output_stable[OF ne] ev ne lat by simp
qed

end
